theory Spec2Isabelle
  imports Complex_Main
begin

section \<open>The batch downloader of network_tools/batch_downloader.py\<close>

text \<open>
  A shallow embedding of class \<open>BatchDownloader\<close> and of \<open>main\<close>. The object's
  attributes are split into a record of the options fixed by the constructor
  (\<open>config\<close>) and a record of what the methods mutate (\<open>dl_state\<close>), which also
  holds the files on disk and the list of requests and sleeps performed so far.
  Everything the program reads from outside (the network, the clock, the random
  generator, failures of file operations, the standard library's string functions) is
  a field of the record \<open>world\<close>; each reading consumes one index of the counter
  \<open>tick\<close>, so two readings may differ. Times and delays are real numbers. Logging
  is left out: it changes nothing the program reads again.
\<close>

subsection \<open>Data\<close>

type_synonym url = string
type_synonym path = string
type_synonym byte = nat
type_synonym header_map = "string \<rightharpoonup> string"

text \<open>The result of \<open>urllib.parse.urlparse\<close>, as far as the program reads it.\<close>

record parse_result =
  scheme :: string
  netloc :: string
  url_path :: string

text \<open>
  The header \<open>Content-Length\<close> of a response as the program sees it: absent or empty
  (falsy), present with a text that \<open>int\<close> rejects (ValueError), or a number.
\<close>

datatype content_length = NoLength | BadLength | Length int

record response =
  content_length :: content_length
  content_type :: "string option"

text \<open>
  The exceptions the handlers tell apart: \<open>httpx.RequestError\<close>,
  \<open>httpx.HTTPStatusError\<close> with its status code, and any other exception.
\<close>

datatype exn = RequestError | HTTPStatusError int | OtherError

text \<open>
  A streamed GET either raises when it is opened (or in \<open>raise_for_status\<close>), or
  gives a response whose body arrives as a list of chunks, after which the iteration
  ends or raises.
\<close>

datatype stream_result = StreamFail exn | Stream response "byte list list" "exn option"

datatype phase = Probe | Transfer

datatype event = EvHead url header_map | EvGet phase url header_map | EvSleep real

datatype mode = Append | Truncate

record world =
  w_urlparse :: "string \<Rightarrow> parse_result option"
  w_unquote :: "string \<Rightarrow> string"
  w_basename :: "string \<Rightarrow> string"
  w_splitext :: "string \<Rightarrow> string \<times> string"
  w_lower :: "string \<Rightarrow> string"
  w_path_join :: "path \<Rightarrow> string \<Rightarrow> path"
  w_clock :: "nat \<Rightarrow> real"
  w_random :: "nat \<Rightarrow> real"
  w_randbelow :: "nat \<Rightarrow> nat \<Rightarrow> nat"
  w_head :: "nat \<Rightarrow> url \<Rightarrow> header_map \<Rightarrow> exn + response"
  w_stream :: "nat \<Rightarrow> url \<Rightarrow> header_map \<Rightarrow> stream_result"
  w_open_fails :: "nat \<Rightarrow> bool"
  w_rename_fails :: "nat \<Rightarrow> bool"
  w_copy_fails :: "nat \<Rightarrow> bool"
  w_remove_fails :: "nat \<Rightarrow> bool"
  w_state_write_fails :: "nat \<Rightarrow> bool"

text \<open>
  The constructor's options. \<open>default_suffix\<close> is only ever tested for truth before
  it is used, so \<open>None\<close> and the empty string are both the empty string here.
  \<open>max_workers\<close>, \<open>timeout\<close>, \<open>chunk_size\<close> and \<open>verify_ssl\<close> act inside the
  network client, whose answers are the world's.
\<close>

record config =
  output_dir :: path
  max_retries :: int
  headers :: header_map
  resume :: bool
  overwrite :: bool
  default_suffix :: string
  force_suffix :: bool
  filename_map :: "url \<rightharpoonup> string"
  random_delay :: bool
  min_delay :: real
  max_delay :: real
  continue_from_state :: bool
  use_tqdm :: bool

text \<open>The state file written by \<open>_save_state\<close>.\<close>

record persisted =
  p_timestamp :: real
  p_completed_urls :: "url set"
  p_successful :: int
  p_failed :: int
  p_skipped :: int
  p_total_bytes :: int

text \<open>
  \<open>self.stats\<close> (its counters and \<open>completed_urls\<close>), \<open>self.domain_cooldown\<close>
  (domain to last access and cooldown), \<open>self.progress_bars\<close> (URL to the bar's
  \<open>n\<close> and \<open>total\<close>), the regular files on disk, the state file, and the history.
\<close>

record dl_state =
  successful :: int
  failed :: int
  skipped :: int
  total_bytes :: int
  completed_urls :: "url set"
  domain_cooldown :: "string \<rightharpoonup> real \<times> real"
  progress_bars :: "url \<rightharpoonup> int \<times> int"
  files :: "path \<rightharpoonup> byte list"
  saved :: "persisted option"
  tick :: nat
  trace :: "event list"

text \<open>The local variables of \<open>download_file\<close> that its retry loop carries around.\<close>

record loop_state =
  downloaded_bytes :: int
  retry_count :: int
  file_mode :: mode
  file_size :: int

text \<open>What \<open>download_file\<close> returns: success, path, bytes.\<close>

type_synonym result = "bool \<times> string \<times> int"

datatype step = Done result | Again loop_state

subsection \<open>Reading the world\<close>

definition time_now :: "world \<Rightarrow> dl_state \<Rightarrow> real \<times> dl_state" where
  "time_now w st = (w_clock w (tick st), st\<lparr>tick := Suc (tick st)\<rparr>)"

text \<open>\<open>random.uniform(a, b)\<close> is \<open>a + (b - a) * random()\<close>.\<close>

definition random_uniform :: "world \<Rightarrow> real \<Rightarrow> real \<Rightarrow> dl_state \<Rightarrow> real \<times> dl_state" where
  "random_uniform w a b st = (a + (b - a) * w_random w (tick st), st\<lparr>tick := Suc (tick st)\<rparr>)"

definition sleep :: "real \<Rightarrow> dl_state \<Rightarrow> dl_state" where
  "sleep d st = st\<lparr>trace := trace st @ [EvSleep d]\<rparr>"

text \<open>Decimal text of an integer, for the f-strings that print a timestamp.\<close>

fun show_nat :: "nat \<Rightarrow> string" where
  "show_nat n =
     (if n < 10 then [''0123456789'' ! n]
      else show_nat (n div 10) @ [''0123456789'' ! (n mod 10)])"

definition show_int :: "int \<Rightarrow> string" where
  "show_int i = (if i < 0 then CHR ''-'' # show_nat (nat (- i)) else show_nat (nat i))"

text \<open>\<open>int(x)\<close> of a float truncates towards zero.\<close>

definition py_int :: "real \<Rightarrow> int" where
  "py_int x = (if 0 \<le> x then \<lfloor>x\<rfloor> else \<lceil>x\<rceil>)"

definition starts_with_dot :: "string \<Rightarrow> bool" where
  "starts_with_dot s = (case s of [] \<Rightarrow> False | c # _ \<Rightarrow> c = CHR ''.'')"

text \<open>The suffix with its leading dot, as the three places of the source build it.\<close>

definition dotted :: "string \<Rightarrow> string" where
  "dotted s = (if starts_with_dot s then s else ''.'' @ s)"

declare show_nat.simps [simp del]

subsection \<open>Small methods\<close>

text \<open>
  \<open>_validate_url\<close>: the scheme is http or https and the host is not empty; an
  exception of \<open>urlparse\<close> (here \<open>None\<close>) makes the URL invalid too.
\<close>

definition validate_url :: "world \<Rightarrow> url \<Rightarrow> bool" where
  "validate_url w u =
     (case w_urlparse w u of
        None \<Rightarrow> False
      | Some r \<Rightarrow> (scheme r = ''http'' \<or> scheme r = ''https'') \<and> netloc r \<noteq> [])"

text \<open>\<open>_create_progress_bar\<close>, \<open>_update_progress_bar\<close>, \<open>_close_progress_bar\<close>.\<close>

definition create_progress_bar :: "config \<Rightarrow> dl_state \<Rightarrow> url \<Rightarrow> int \<Rightarrow> dl_state" where
  "create_progress_bar cfg st u total_size =
     (if use_tqdm cfg
      then st\<lparr>progress_bars := (progress_bars st)(u \<mapsto> (0, max total_size 1024))\<rparr>
      else st)"

definition update_progress_bar ::
  "config \<Rightarrow> dl_state \<Rightarrow> url \<Rightarrow> int \<Rightarrow> int option \<Rightarrow> dl_state" where
  "update_progress_bar cfg st u n new_total =
     (if use_tqdm cfg
      then (case progress_bars st u of
              None \<Rightarrow> st
            | Some (pn, ptotal) \<Rightarrow>
                let current_total =
                      (case new_total of
                         None \<Rightarrow> ptotal
                       | Some t \<Rightarrow> if 0 < t then max ptotal t else ptotal)
                in st\<lparr>progress_bars := (progress_bars st)(u \<mapsto> (pn + n, current_total))\<rparr>)
      else st)"

definition close_progress_bar :: "config \<Rightarrow> dl_state \<Rightarrow> url \<Rightarrow> bool \<Rightarrow> dl_state" where
  "close_progress_bar cfg st u success =
     (if use_tqdm cfg
      then (case progress_bars st u of
              None \<Rightarrow> st
            | Some pbar \<Rightarrow> st\<lparr>progress_bars := (progress_bars st)(u := None)\<rparr>)
      else st)"

definition cleanup_progress_bars :: "config \<Rightarrow> dl_state \<Rightarrow> dl_state" where
  "cleanup_progress_bars cfg st =
     (if use_tqdm cfg then st\<lparr>progress_bars := Map.empty\<rparr> else st)"

text \<open>
  \<open>_get_filename_from_url\<close>. \<open>None\<close> is an exception of \<open>urlparse\<close> leaving the
  method.
\<close>

definition get_filename_from_url ::
  "config \<Rightarrow> world \<Rightarrow> dl_state \<Rightarrow> url \<Rightarrow> (string \<times> dl_state) option" where
  "get_filename_from_url cfg w st u =
     (case filename_map cfg u of
        Some mapped \<Rightarrow> Some (mapped, st)
      | None \<Rightarrow>
          (case w_urlparse w u of
             None \<Rightarrow> None
           | Some parsed_url \<Rightarrow>
               let p = w_unquote w (url_path parsed_url);
                   filename = w_basename w p;
                   (filename, st) =
                      (if filename = []
                       then (let (t, st') = time_now w st
                             in (netloc parsed_url @ ''_'' @ show_int (py_int t), st'))
                       else (filename, st));
                   filename =
                      (if force_suffix cfg \<and> default_suffix cfg \<noteq> []
                       then fst (w_splitext w filename) else filename);
                   filename =
                      (if default_suffix cfg \<noteq> []
                          \<and> (snd (w_splitext w filename) = [] \<or> force_suffix cfg)
                       then (if starts_with_dot (default_suffix cfg)
                             then filename @ default_suffix cfg
                             else filename @ ''.'' @ default_suffix cfg)
                       else filename)
               in Some (filename, st)))"

text \<open>\<open>_enhance_headers\<close>; \<open>random.choice\<close> picks one of four browser names.\<close>

definition user_agents :: "string list" where
  "user_agents =
     [''Mozilla/5.0 (Windows NT 10.0; Win64; x64) AppleWebKit/537.36 (KHTML, like Gecko) Chrome/120.0.0.0 Safari/537.36'',
      ''Mozilla/5.0 (Windows NT 10.0; Win64; x64) AppleWebKit/537.36 (KHTML, like Gecko) Chrome/119.0.0.0 Safari/537.36'',
      ''Mozilla/5.0 (Windows NT 10.0; Win64; x64; rv:109.0) Gecko/20100101 Firefox/119.0'',
      ''Mozilla/5.0 (Macintosh; Intel Mac OS X 10_15_7) AppleWebKit/605.1.15 (KHTML, like Gecko) Version/16.6 Safari/605.1.15'']"

definition set_default :: "header_map \<Rightarrow> string \<Rightarrow> string \<Rightarrow> header_map" where
  "set_default h k v = (case h k of None \<Rightarrow> h(k \<mapsto> v) | Some old \<Rightarrow> h)"

definition enhance_headers ::
  "config \<Rightarrow> world \<Rightarrow> dl_state \<Rightarrow> url \<Rightarrow> (header_map \<times> dl_state) option" where
  "enhance_headers cfg w st u =
     (let enhanced_headers = headers cfg;
          (enhanced_headers, st) =
             (case enhanced_headers ''User-Agent'' of
                None \<Rightarrow>
                  (enhanced_headers(''User-Agent'' \<mapsto>
                      user_agents ! (w_randbelow w (tick st) 4 mod 4)),
                   st\<lparr>tick := Suc (tick st)\<rparr>)
              | Some ua \<Rightarrow> (enhanced_headers, st));
          enhanced_headers = set_default enhanced_headers ''Accept'' ''*/*'';
          enhanced_headers = set_default enhanced_headers ''Accept-Language'' ''en-US,en;q=0.9'';
          enhanced_headers = set_default enhanced_headers ''Accept-Encoding'' ''gzip, deflate, br''
      in (case enhanced_headers ''Referer'' of
            Some r \<Rightarrow> Some (enhanced_headers, st)
          | None \<Rightarrow>
              (case w_urlparse w u of
                 None \<Rightarrow> None
               | Some parsed_url \<Rightarrow>
                   Some (enhanced_headers(''Referer'' \<mapsto>
                           scheme parsed_url @ ''://'' @ netloc parsed_url), st))))"

text \<open>
  \<open>_get_resume_header\<close>: the configured headers, with a \<open>Range\<close> header from the
  size of the partial file when resuming and that file exists and is not empty.
\<close>

definition get_resume_header :: "config \<Rightarrow> dl_state \<Rightarrow> url \<Rightarrow> path \<Rightarrow> header_map" where
  "get_resume_header cfg st u file_path =
     (let hdrs = headers cfg
      in (case (if resume cfg then files st file_path else None) of
            None \<Rightarrow> hdrs
          | Some content \<Rightarrow>
              if 0 < length content
              then hdrs(''Range'' \<mapsto> ''bytes='' @ show_nat (length content) @ ''-'')
              else hdrs))"

text \<open>
  \<open>fetch_content_type\<close>: a HEAD request; any exception (also one of
  \<open>_enhance_headers\<close>, before the request is sent) gives \<open>None\<close>.
\<close>

definition fetch_content_type ::
  "config \<Rightarrow> world \<Rightarrow> dl_state \<Rightarrow> url \<Rightarrow> string option \<times> dl_state" where
  "fetch_content_type cfg w st u =
     (case enhance_headers cfg w st u of
        None \<Rightarrow> (None, st)
      | Some (hdrs, st1) \<Rightarrow>
          let st2 = st1\<lparr>tick := Suc (tick st1), trace := trace st1 @ [EvHead u hdrs]\<rparr>
          in (case w_head w (tick st1) u hdrs of
                Inl e \<Rightarrow> (None, st2)
              | Inr resp \<Rightarrow> (content_type resp, st2)))"

text \<open>\<open>_get_extension_from_content_type\<close>: the first entry whose key is a prefix.\<close>

definition mime_to_ext :: "(string \<times> string) list" where
  "mime_to_ext =
     [(''text/plain'', ''.txt''), (''text/html'', ''.html''), (''text/css'', ''.css''),
      (''text/javascript'', ''.js''), (''text/csv'', ''.csv''), (''text/xml'', ''.xml''),
      (''image/jpeg'', ''.jpg''), (''image/png'', ''.png''), (''image/gif'', ''.gif''),
      (''image/bmp'', ''.bmp''), (''image/webp'', ''.webp''), (''image/svg+xml'', ''.svg''),
      (''audio/mpeg'', ''.mp3''), (''audio/wav'', ''.wav''), (''audio/ogg'', ''.ogg''),
      (''video/mp4'', ''.mp4''), (''video/mpeg'', ''.mpeg''), (''video/quicktime'', ''.mov''),
      (''video/x-msvideo'', ''.avi''), (''video/webm'', ''.webm''),
      (''application/pdf'', ''.pdf''), (''application/json'', ''.json''),
      (''application/zip'', ''.zip''), (''application/x-rar-compressed'', ''.rar''),
      (''application/x-tar'', ''.tar''), (''application/x-gzip'', ''.gz''),
      (''application/msword'', ''.doc''),
      (''application/vnd.openxmlformats-officedocument.wordprocessingml.document'', ''.docx''),
      (''application/vnd.ms-excel'', ''.xls''),
      (''application/vnd.openxmlformats-officedocument.spreadsheetml.sheet'', ''.xlsx''),
      (''application/vnd.ms-powerpoint'', ''.ppt''),
      (''application/vnd.openxmlformats-officedocument.presentationml.presentation'', ''.pptx''),
      (''application/x-bittorrent'', ''.torrent'')]"

fun starts_with :: "string \<Rightarrow> string \<Rightarrow> bool" where
  "starts_with s [] = True"
| "starts_with [] (p # ps) = False"
| "starts_with (c # cs) (p # ps) = (c = p \<and> starts_with cs ps)"

definition get_extension_from_content_type :: "world \<Rightarrow> string \<Rightarrow> string option" where
  "get_extension_from_content_type w ct =
     (case filter (\<lambda>(mime, ext). starts_with (w_lower w ct) mime) mime_to_ext of
        [] \<Rightarrow> None
      | (mime, ext) # rest \<Rightarrow> Some ext)"

text \<open>
  \<open>_save_state\<close>: best effort; a failed write leaves the state file as it was.
\<close>

definition save_state :: "world \<Rightarrow> dl_state \<Rightarrow> dl_state" where
  "save_state w st =
     (let (t, st1) = time_now w st;
          st2 = st1\<lparr>tick := Suc (tick st1)\<rparr>
      in if w_state_write_fails w (tick st1) then st2
         else st2\<lparr>saved := Some \<lparr>p_timestamp = t, p_completed_urls = completed_urls st,
                p_successful = successful st, p_failed = failed st, p_skipped = skipped st,
                p_total_bytes = total_bytes st\<rparr>\<rparr>)"

subsection \<open>The origin throttle and the size probe\<close>

text \<open>
  \<open>_check_domain_cooldown\<close>. \<open>None\<close> is an exception of \<open>urlparse\<close> leaving the
  method. The two readings of \<open>time.time()\<close> are two readings of the clock.
\<close>

definition check_domain_cooldown ::
  "config \<Rightarrow> world \<Rightarrow> dl_state \<Rightarrow> url \<Rightarrow> dl_state option" where
  "check_domain_cooldown cfg w st u =
     (case w_urlparse w u of
        None \<Rightarrow> None
      | Some parsed_url \<Rightarrow>
          let domain = netloc parsed_url;
              st =
                (case domain_cooldown st domain of
                   None \<Rightarrow> st
                 | Some (last_access, cooldown) \<Rightarrow>
                     let (current_time, st') = time_now w st;
                         elapsed = current_time - last_access
                     in if elapsed < cooldown then sleep (cooldown - elapsed) st' else st');
              (base_cooldown, st) =
                 random_uniform w (if random_delay cfg then min_delay cfg else 0)
                   (if random_delay cfg then max_delay cfg else 0.5) st;
              cooldown =
                (case domain_cooldown st domain of
                   Some (last_access, prev_cooldown) \<Rightarrow> min (prev_cooldown * 1.2) 30.0
                 | None \<Rightarrow> base_cooldown);
              (t, st) = time_now w st
          in Some (st\<lparr>domain_cooldown := (domain_cooldown st)(domain \<mapsto> (t, cooldown))\<rparr>))"

text \<open>
  The penalty for a 403 or 429 answer, inside the handler of \<open>download_file\<close>; an
  exception of \<open>urlparse\<close> is swallowed there.
\<close>

definition penalize :: "world \<Rightarrow> dl_state \<Rightarrow> url \<Rightarrow> int \<Rightarrow> dl_state" where
  "penalize w st u retry =
     (case w_urlparse w u of
        None \<Rightarrow> st
      | Some parsed_url \<Rightarrow>
          let (t, st') = time_now w st
          in st'\<lparr>domain_cooldown :=
                 (domain_cooldown st')(netloc parsed_url \<mapsto> (t, real_of_int (min (30 + retry * 10) 300)))\<rparr>)"

text \<open>
  \<open>fetch_file_size\<close>: HEAD first, then a streamed GET of which only the headers are
  read, then the default of 1 MB. A failed request and a \<open>Content-Length\<close> that is
  absent or not a number all fall through to the next step.
\<close>

definition size_of_headers :: "response \<Rightarrow> int option" where
  "size_of_headers resp =
     (case content_length resp of Length n \<Rightarrow> Some (max n 1024) | NoLength \<Rightarrow> None | BadLength \<Rightarrow> None)"

definition fetch_file_size :: "config \<Rightarrow> world \<Rightarrow> dl_state \<Rightarrow> url \<Rightarrow> int \<times> dl_state" where
  "fetch_file_size cfg w st u =
     (case enhance_headers cfg w st u of
        None \<Rightarrow> (1024 * 1024, st)
      | Some (hdrs, st1) \<Rightarrow>
          let st2 = st1\<lparr>tick := Suc (tick st1), trace := trace st1 @ [EvHead u hdrs]\<rparr>
          in (case (case w_head w (tick st1) u hdrs of
                      Inl e \<Rightarrow> None | Inr resp \<Rightarrow> size_of_headers resp) of
                Some n \<Rightarrow> (n, st2)
              | None \<Rightarrow>
                  let st3 = st2\<lparr>tick := Suc (tick st2), trace := trace st2 @ [EvGet Probe u hdrs]\<rparr>
                  in (case (case w_stream w (tick st2) u hdrs of
                              StreamFail e \<Rightarrow> None
                            | Stream resp chunks abort \<Rightarrow> size_of_headers resp) of
                        Some n \<Rightarrow> (n, st3)
                      | None \<Rightarrow> (1024 * 1024, st3))))"

subsection \<open>The name of the file\<close>

text \<open>
  Lines 536 to 569 of \<open>download_file\<close>. The only exception the block can see comes
  from \<open>_get_filename_from_url\<close>, while \<open>filename\<close> is still \<open>None\<close>; the handler
  then invents a name from the time and a random number between 1000 and 9999.
\<close>

definition add_missing_suffix ::
  "config \<Rightarrow> world \<Rightarrow> dl_state \<Rightarrow> url \<Rightarrow> string \<Rightarrow> string \<times> dl_state" where
  "add_missing_suffix cfg w st u filename =
     (if snd (w_splitext w filename) = [] \<and> \<not> force_suffix cfg
      then (let (ct, st1) = fetch_content_type cfg w st u;
                filename =
                  (case ct of
                     None \<Rightarrow> filename
                   | Some c \<Rightarrow>
                       if c = [] then filename
                       else (case get_extension_from_content_type w c of
                               None \<Rightarrow> filename
                             | Some ext \<Rightarrow> if ext = [] then filename else filename @ ext));
                filename =
                  (if snd (w_splitext w filename) = [] \<and> default_suffix cfg \<noteq> []
                   then filename @ dotted (default_suffix cfg) else filename)
            in (filename, st1))
      else (filename, st))"

definition resolve_filename ::
  "config \<Rightarrow> world \<Rightarrow> dl_state \<Rightarrow> url \<Rightarrow> string option \<Rightarrow> string \<times> dl_state" where
  "resolve_filename cfg w st u filename =
     (case filename of
        None \<Rightarrow>
          (case get_filename_from_url cfg w st u of
             Some (name, st1) \<Rightarrow> add_missing_suffix cfg w st1 u name
           | None \<Rightarrow>
               let (t, st1) = time_now w st;
                   r = 1000 + int (w_randbelow w (tick st1) 9000 mod 9000);
                   st2 = st1\<lparr>tick := Suc (tick st1)\<rparr>;
                   name = ''download_'' @ show_int (py_int t) @ ''_'' @ show_int r
               in (if default_suffix cfg \<noteq> [] then name @ dotted (default_suffix cfg) else name, st2))
      | Some given \<Rightarrow>
          add_missing_suffix cfg w st u
            (if force_suffix cfg \<and> default_suffix cfg \<noteq> []
             then fst (w_splitext w given) @ dotted (default_suffix cfg) else given))"

text \<open>
  \<open>file_path.with_suffix(file_path.suffix + ".part")\<close> puts \<open>.part\<close> after the
  whole name of the file.
\<close>

definition part_path :: "path \<Rightarrow> path" where
  "part_path file_path = file_path @ ''.part''"

subsection \<open>File operations\<close>

text \<open>
  Each returns whether it succeeded (\<open>False\<close> is an exception) and the new state. A
  file that is not there cannot be renamed, copied or removed.
\<close>

definition fs_rename :: "world \<Rightarrow> path \<Rightarrow> path \<Rightarrow> dl_state \<Rightarrow> bool \<times> dl_state" where
  "fs_rename w src dst st =
     (let st1 = st\<lparr>tick := Suc (tick st)\<rparr>
      in (case files st src of
            None \<Rightarrow> (False, st1)
          | Some content \<Rightarrow>
              if w_rename_fails w (tick st) then (False, st1)
              else (True, st1\<lparr>files := ((files st)(src := None))(dst \<mapsto> content)\<rparr>)))"

definition fs_copy :: "world \<Rightarrow> path \<Rightarrow> path \<Rightarrow> dl_state \<Rightarrow> bool \<times> dl_state" where
  "fs_copy w src dst st =
     (let st1 = st\<lparr>tick := Suc (tick st)\<rparr>
      in (case files st src of
            None \<Rightarrow> (False, st1)
          | Some content \<Rightarrow>
              if w_copy_fails w (tick st) then (False, st1)
              else (True, st1\<lparr>files := (files st)(dst \<mapsto> content)\<rparr>)))"

definition fs_remove :: "world \<Rightarrow> path \<Rightarrow> dl_state \<Rightarrow> bool \<times> dl_state" where
  "fs_remove w p st =
     (let st1 = st\<lparr>tick := Suc (tick st)\<rparr>
      in (case files st p of
            None \<Rightarrow> (False, st1)
          | Some content \<Rightarrow>
              if w_remove_fails w (tick st) then (False, st1)
              else (True, st1\<lparr>files := (files st)(p := None)\<rparr>)))"

text \<open>\<open>open(temp_path, mode)\<close>: \<open>"wb"\<close> empties the file, \<open>"ab"\<close> keeps it.\<close>

definition fs_open :: "world \<Rightarrow> path \<Rightarrow> mode \<Rightarrow> dl_state \<Rightarrow> bool \<times> dl_state" where
  "fs_open w p m st =
     (let st1 = st\<lparr>tick := Suc (tick st)\<rparr>
      in if w_open_fails w (tick st) then (False, st1)
         else (True, st1\<lparr>files := (files st)(p \<mapsto>
                  (case m of
                     Truncate \<Rightarrow> []
                   | Append \<Rightarrow> (case files st p of None \<Rightarrow> [] | Some content \<Rightarrow> content)))\<rparr>))"

definition fs_write :: "path \<Rightarrow> byte list \<Rightarrow> dl_state \<Rightarrow> dl_state" where
  "fs_write p chunk st =
     st\<lparr>files := (files st)(p \<mapsto> (case files st p of None \<Rightarrow> [] | Some content \<Rightarrow> content) @ chunk)\<rparr>"

subsection \<open>One attempt of the retry loop\<close>

text \<open>
  The body of \<open>async for chunk in response.aiter_bytes(...)\<close>: an empty chunk is
  skipped, any other is written and counted, and the bar moves when more than 0.2
  seconds have passed since it last did. The triple is the state,
  \<open>downloaded_bytes\<close> and \<open>last_update\<close>.
\<close>

definition write_chunk :: "world \<Rightarrow> path \<Rightarrow> byte list \<Rightarrow> dl_state \<Rightarrow> real \<times> dl_state" where
  "write_chunk w temp_path chunk st =
     (let st1 = fs_write temp_path chunk st;
          chunk_size = int (length chunk);
          st2 = st1\<lparr>total_bytes := total_bytes st1 + chunk_size\<rparr>
      in time_now w st2)"

fun write_chunks ::
  "config \<Rightarrow> world \<Rightarrow> url \<Rightarrow> path \<Rightarrow> bool \<Rightarrow> byte list list
     \<Rightarrow> dl_state \<times> int \<times> real \<Rightarrow> dl_state \<times> int \<times> real" where
  "write_chunks cfg w u temp_path up [] acc = acc"
| "write_chunks cfg w u temp_path up (chunk # chunks) (st, downloaded, last_update) =
     (if chunk = [] then write_chunks cfg w u temp_path up chunks (st, downloaded, last_update)
      else
        let (current_time, st3) = write_chunk w temp_path chunk st;
            chunk_size = int (length chunk)
        in if up \<and> use_tqdm cfg \<and> current_time - last_update > 0.2
           then write_chunks cfg w u temp_path up chunks
                  (update_progress_bar cfg st3 u chunk_size None, downloaded + chunk_size, current_time)
           else write_chunks cfg w u temp_path up chunks
                  (st3, downloaded + chunk_size, last_update))"

declare write_chunks.simps [simp del]

text \<open>
  Lines 644 to 663: a positive \<open>Content-Length\<close> replaces \<open>file_size\<close> by that
  length plus the bytes already downloaded; a \<open>file_size\<close> that is not positive
  becomes 1024.
\<close>

definition learn_file_size ::
  "config \<Rightarrow> dl_state \<Rightarrow> url \<Rightarrow> bool \<Rightarrow> response \<Rightarrow> loop_state \<Rightarrow> dl_state \<times> loop_state" where
  "learn_file_size cfg st u up resp ls =
     (let (st, ls) =
            (case content_length resp of
               Length tot \<Rightarrow>
                 if 0 < tot
                 then (let fsize = tot + downloaded_bytes ls
                       in (if up \<and> use_tqdm cfg
                           then update_progress_bar cfg st u 0 (Some fsize) else st,
                           ls\<lparr>file_size := fsize\<rparr>))
                 else (st, ls)
             | NoLength \<Rightarrow> (st, ls)
             | BadLength \<Rightarrow> (st, ls))
      in if file_size ls \<le> 0
         then (if up \<and> use_tqdm cfg then update_progress_bar cfg st u 0 (Some 1024) else st,
               ls\<lparr>file_size := 1024\<rparr>)
         else (st, ls))"

text \<open>
  The \<open>try\<close> part of one turn of the loop, up to the end of the \<open>async with\<close>:
  the headers, the request, the sizes, the file and the chunks. The first component
  is the exception that left the block, if any. The headers are assigned twice, as
  in the source: the result of \<open>_get_resume_header\<close> is replaced by the result of
  \<open>_enhance_headers\<close>.
\<close>

definition stream_attempt ::
  "config \<Rightarrow> world \<Rightarrow> url \<Rightarrow> path \<Rightarrow> bool \<Rightarrow> dl_state \<Rightarrow> loop_state
     \<Rightarrow> exn option \<times> dl_state \<times> loop_state" where
  "stream_attempt cfg w u temp_path up st ls =
     (let hdrs = get_resume_header cfg st u temp_path;
          (hdrs, st) =
             (case enhance_headers cfg w st u of
                None \<Rightarrow> (headers cfg, st)
              | Some (h, st') \<Rightarrow> (h, st'));
          st1 = st\<lparr>tick := Suc (tick st), trace := trace st @ [EvGet Transfer u hdrs]\<rparr>
      in (case w_stream w (tick st) u hdrs of
            StreamFail e \<Rightarrow> (Some e, st1, ls)
          | Stream resp chunks abort \<Rightarrow>
              let (st2, ls) = learn_file_size cfg st1 u up resp ls;
                  (opened, st3) = fs_open w temp_path (file_mode ls) st2
              in if opened
                 then (let (last_update, st4) = time_now w st3;
                           (st5, downloaded, last) =
                              write_chunks cfg w u temp_path up chunks
                                (st4, downloaded_bytes ls, last_update);
                           ls = ls\<lparr>downloaded_bytes := downloaded\<rparr>
                       in (case abort of
                             None \<Rightarrow> (None, st5, ls)
                           | Some e \<Rightarrow> (Some e, st5, ls\<lparr>file_mode := Append\<rparr>)))
                 else (Some OtherError, st3, ls)))"

text \<open>
  Lines 697 to 710: rename the partial file; if that raises, copy it and delete it;
  \<open>False\<close> when the fallback raised too.
\<close>

definition move_into_place :: "world \<Rightarrow> path \<Rightarrow> path \<Rightarrow> dl_state \<Rightarrow> bool \<times> dl_state" where
  "move_into_place w temp_path file_path st =
     (let (renamed, st1) = fs_rename w temp_path file_path st
      in if renamed then (True, st1)
         else (let (copied, st2) = fs_copy w temp_path file_path st1
               in if copied then fs_remove w temp_path st2 else (False, st2)))"

text \<open>Lines 712 to 722: the bar, the counter, the completed URL, the state file.\<close>

definition record_success :: "config \<Rightarrow> world \<Rightarrow> url \<Rightarrow> bool \<Rightarrow> dl_state \<Rightarrow> dl_state" where
  "record_success cfg w u up st =
     (let st1 = (if up \<and> use_tqdm cfg then close_progress_bar cfg st u True else st);
          st2 = st1\<lparr>successful := successful st1 + 1,
                    completed_urls := insert u (completed_urls st1)\<rparr>
      in save_state w st2)"

text \<open>
  Lines 697 to 723. When the fallback fails too the method returns success with the
  path of the partial file, and touches neither the counters nor the completed URLs.
\<close>

definition finish_download ::
  "config \<Rightarrow> world \<Rightarrow> url \<Rightarrow> path \<Rightarrow> path \<Rightarrow> bool \<Rightarrow> dl_state \<Rightarrow> loop_state
     \<Rightarrow> dl_state \<times> result" where
  "finish_download cfg w u file_path temp_path up st ls =
     (let (moved, st1) = move_into_place w temp_path file_path st
      in if moved
         then (record_success cfg w u up st1, (True, file_path, downloaded_bytes ls))
         else (st1, (True, temp_path, downloaded_bytes ls)))"

text \<open>
  The two handlers of the loop. Both count the retry, give up when the count exceeds
  \<open>max_retries\<close>, and otherwise sleep \<open>2 ** retry_count + random.uniform(0, 2)\<close>
  seconds; the first also raises the domain's cooldown after a 403 or a 429.
\<close>

definition give_up ::
  "config \<Rightarrow> url \<Rightarrow> path \<Rightarrow> bool \<Rightarrow> dl_state \<Rightarrow> loop_state \<Rightarrow> dl_state \<times> step" where
  "give_up cfg u file_path up st ls =
     (let st1 = st\<lparr>failed := failed st + 1\<rparr>;
          st2 = (if up \<and> use_tqdm cfg then close_progress_bar cfg st1 u False else st1)
      in (st2, Done (False, file_path, downloaded_bytes ls)))"

definition backoff :: "world \<Rightarrow> dl_state \<Rightarrow> loop_state \<Rightarrow> dl_state \<times> step" where
  "backoff w st ls =
     (let (r, st1) = random_uniform w 0 2 st;
          delay = 2 ^ nat (retry_count ls) + r
      in (sleep delay st1, Again ls))"

definition on_request_error ::
  "config \<Rightarrow> world \<Rightarrow> url \<Rightarrow> path \<Rightarrow> bool \<Rightarrow> exn \<Rightarrow> dl_state \<Rightarrow> loop_state
     \<Rightarrow> dl_state \<times> step" where
  "on_request_error cfg w u file_path up e st ls =
     (let ls1 = ls\<lparr>retry_count := retry_count ls + 1\<rparr>;
          st1 =
            (case e of
               HTTPStatusError code \<Rightarrow>
                 if code = 403 \<or> code = 429 then penalize w st u (retry_count ls1) else st
             | RequestError \<Rightarrow> st
             | OtherError \<Rightarrow> st)
      in if retry_count ls1 > max_retries cfg then give_up cfg u file_path up st1 ls1
         else backoff w st1 ls1)"

definition on_other_error ::
  "config \<Rightarrow> world \<Rightarrow> url \<Rightarrow> path \<Rightarrow> bool \<Rightarrow> dl_state \<Rightarrow> loop_state \<Rightarrow> dl_state \<times> step" where
  "on_other_error cfg w u file_path up st ls =
     (let ls1 = ls\<lparr>retry_count := retry_count ls + 1\<rparr>
      in if retry_count ls1 > max_retries cfg then give_up cfg u file_path up st ls1
         else backoff w st ls1)"

text \<open>One turn of \<open>while retry_count <= self.max_retries\<close>.\<close>

definition attempt ::
  "config \<Rightarrow> world \<Rightarrow> url \<Rightarrow> path \<Rightarrow> path \<Rightarrow> bool \<Rightarrow> dl_state \<Rightarrow> loop_state
     \<Rightarrow> dl_state \<times> step" where
  "attempt cfg w u file_path temp_path up st ls =
     (case stream_attempt cfg w u temp_path up st ls of
        (None, st1, ls1) \<Rightarrow>
          (let (st2, r) = finish_download cfg w u file_path temp_path up st1 ls1
           in (st2, Done r))
      | (Some OtherError, st1, ls1) \<Rightarrow> on_other_error cfg w u file_path up st1 ls1
      | (Some e, st1, ls1) \<Rightarrow> on_request_error cfg w u file_path up e st1 ls1)"

subsection \<open>download_file\<close>

text \<open>
  The retry loop. Falling out of the loop without a \<open>return\<close> (possible only when
  \<open>max_retries\<close> is negative) makes the method return Python's \<open>None\<close>, here
  \<open>None\<close>.
\<close>

lemma stream_attempt_retry_count:
  "stream_attempt cfg w u temp_path up st ls = (e, st1, ls1) \<Longrightarrow> retry_count ls1 = retry_count ls"
  by (auto simp: stream_attempt_def learn_file_size_def Let_def
           split: prod.splits option.splits stream_result.splits content_length.splits if_splits)

lemma attempt_retry_count:
  "attempt cfg w u file_path temp_path up st ls = (st1, Again ls1)
     \<Longrightarrow> retry_count ls1 = retry_count ls + 1"
  by (auto simp: attempt_def on_request_error_def on_other_error_def give_up_def backoff_def
                 Let_def
           split: prod.splits option.splits exn.splits if_splits
           dest: stream_attempt_retry_count)

function download_loop ::
  "config \<Rightarrow> world \<Rightarrow> url \<Rightarrow> path \<Rightarrow> path \<Rightarrow> bool \<Rightarrow> dl_state \<Rightarrow> loop_state
     \<Rightarrow> dl_state \<times> result option" where
  "download_loop cfg w u file_path temp_path up st ls =
     (if retry_count ls \<le> max_retries cfg
      then (case attempt cfg w u file_path temp_path up st ls of
              (st1, Done r) \<Rightarrow> (st1, Some r)
            | (st1, Again ls1) \<Rightarrow> download_loop cfg w u file_path temp_path up st1 ls1)
      else (st, None))"
  by pat_completeness auto
termination
  by (relation "measure (\<lambda>(cfg, w, u, file_path, temp_path, up, st, ls).
                   nat (max_retries cfg + 1 - retry_count ls))")
     (auto dest: attempt_retry_count [OF sym])

declare download_loop.simps [simp del]

text \<open>
  Lines 601 to 628: with \<open>resume\<close> and a partial file, the bytes on disk count as
  downloaded; a partial file at least as long as \<open>file_size\<close> is renamed at once,
  and if that rename raises the download starts again from nothing.
\<close>

definition resume_check ::
  "config \<Rightarrow> world \<Rightarrow> url \<Rightarrow> path \<Rightarrow> path \<Rightarrow> bool \<Rightarrow> dl_state \<Rightarrow> loop_state
     \<Rightarrow> dl_state \<times> step" where
  "resume_check cfg w u file_path temp_path up st ls =
     (case (if resume cfg then files st temp_path else None) of
        None \<Rightarrow> (st, Again ls)
      | Some content \<Rightarrow>
          let downloaded = int (length content);
              st1 = (if up \<and> use_tqdm cfg
                     then update_progress_bar cfg st u downloaded None else st);
              ls1 = ls\<lparr>downloaded_bytes := downloaded\<rparr>
          in if file_size ls \<noteq> 0 \<and> file_size ls \<le> downloaded
             then (let (renamed, st2) = fs_rename w temp_path file_path st1
                   in if renamed
                      then (record_success cfg w u up st2, Done (True, file_path, file_size ls))
                      else (st2, Again (ls\<lparr>downloaded_bytes := 0, file_mode := Truncate\<rparr>)))
             else (st1, Again ls1))"

text \<open>The handler of the outermost \<open>try\<close>.\<close>

definition uncaught :: "config \<Rightarrow> url \<Rightarrow> bool \<Rightarrow> dl_state \<Rightarrow> dl_state \<times> result" where
  "uncaught cfg u up st =
     (let st1 = st\<lparr>failed := failed st + 1\<rparr>
      in (if up \<and> use_tqdm cfg then close_progress_bar cfg st1 u False else st1,
          (False, [], 0)))"

text \<open>
  Lines 520 to 569: the throttle (whose exception is swallowed), the random delay
  of the politeness mode, and the name of the file.
\<close>

definition prepare ::
  "config \<Rightarrow> world \<Rightarrow> dl_state \<Rightarrow> url \<Rightarrow> string option \<Rightarrow> string \<times> dl_state" where
  "prepare cfg w st u filename =
     (let st1 = (case check_domain_cooldown cfg w st u of None \<Rightarrow> st | Some st' \<Rightarrow> st');
          st2 = (if random_delay cfg
                 then (let (delay, st') = random_uniform w (min_delay cfg) (max_delay cfg) st1
                       in sleep delay st')
                 else st1)
      in resolve_filename cfg w st2 u filename)"

text \<open>
  \<open>download_file\<close> up to its retry loop (lines 506 to 628). The result is either
  what an early \<open>return\<close> gives, or the paths of the final and the partial file
  and the variables with which the loop is entered.
\<close>

definition before_loop ::
  "config \<Rightarrow> world \<Rightarrow> dl_state \<Rightarrow> url \<Rightarrow> string option \<Rightarrow> bool
     \<Rightarrow> dl_state \<times> (result + path \<times> path \<times> loop_state)" where
  "before_loop cfg w st u filename up =
     (if \<not> validate_url w u then (st\<lparr>failed := failed st + 1\<rparr>, Inl (False, [], 0))
      else if u \<in> completed_urls st
      then (let st1 = st\<lparr>skipped := skipped st + 1\<rparr>
            in (case (case filename of
                        None \<Rightarrow> get_filename_from_url cfg w st1 u
                      | Some given \<Rightarrow>
                          if given = [] then get_filename_from_url cfg w st1 u
                          else Some (given, st1)) of
                  None \<Rightarrow> (let (st2, r) = uncaught cfg u up st1 in (st2, Inl r))
                | Some (name, st2) \<Rightarrow> (st2, Inl (True, w_path_join w (output_dir cfg) name, 0))))
      else
        let (filename, st3) = prepare cfg w st u filename;
            file_path = w_path_join w (output_dir cfg) filename;
            temp_path = part_path file_path;
            m = (if resume cfg \<and> files st3 temp_path \<noteq> None then Append else Truncate)
        in if files st3 file_path \<noteq> None \<and> \<not> overwrite cfg
           then (let st4 = st3\<lparr>skipped := skipped st3 + 1,
                              completed_urls := insert u (completed_urls st3)\<rparr>
                 in (save_state w st4, Inl (True, file_path, 0)))
           else
             let (fsize, st4) = fetch_file_size cfg w st3 u;
                 fsize = (if fsize \<le> 0 then 1024 * 1024 else fsize);
                 st5 = (if up \<and> use_tqdm cfg \<and> progress_bars st4 u = None
                        then create_progress_bar cfg st4 u fsize else st4);
                 ls = \<lparr>downloaded_bytes = 0, retry_count = 0, file_mode = m, file_size = fsize\<rparr>
             in (case resume_check cfg w u file_path temp_path up st5 ls of
                   (st6, Done r) \<Rightarrow> (st6, Inl r)
                 | (st6, Again ls1) \<Rightarrow> (st6, Inr (file_path, temp_path, ls1))))"

definition download_file ::
  "config \<Rightarrow> world \<Rightarrow> dl_state \<Rightarrow> url \<Rightarrow> string option \<Rightarrow> bool
     \<Rightarrow> dl_state \<times> result option" where
  "download_file cfg w st u filename up =
     (case before_loop cfg w st u filename up of
        (st1, Inl r) \<Rightarrow> (st1, Some r)
      | (st1, Inr (file_path, temp_path, ls)) \<Rightarrow>
          download_loop cfg w u file_path temp_path up st1 ls)"

subsection \<open>download_batch\<close>

text \<open>
  \<open>limited_download\<close>, the task of one URL. A \<open>None\<close> from \<open>download_file\<close>
  cannot be unpacked into three names; the TypeError is caught here and counted as
  a failure.
\<close>

type_synonym outcome = "url \<times> bool \<times> string \<times> int"

definition limited_download ::
  "config \<Rightarrow> world \<Rightarrow> dl_state \<Rightarrow> url \<Rightarrow> string option \<Rightarrow> dl_state \<times> outcome" where
  "limited_download cfg w st u file_name =
     (case download_file cfg w st u file_name True of
        (st1, Some (success, file_path, n)) \<Rightarrow> (st1, (u, success, file_path, n))
      | (st1, None) \<Rightarrow>
          let st2 = st1\<lparr>failed := failed st1 + 1\<rparr>
          in (if use_tqdm cfg then close_progress_bar cfg st2 u False else st2,
              (u, False, [], 0)))"

text \<open>
  The tasks, for the schedule in which they run to completion one after the other
  in the order of the list (with more than one worker the tasks interleave at their
  \<open>await\<close>s, and the order in which they finish is not fixed).
\<close>

fun run_tasks ::
  "config \<Rightarrow> world \<Rightarrow> (url \<times> string option) list \<Rightarrow> dl_state \<Rightarrow> dl_state \<times> outcome list" where
  "run_tasks cfg w [] st = (st, [])"
| "run_tasks cfg w ((u, file_name) # jobs) st =
     (let (st1, oc) = limited_download cfg w st u file_name;
          (st2, ocs) = run_tasks cfg w jobs st1
      in (st2, oc # ocs))"

text \<open>
  The body of \<open>for future in asyncio.as_completed(tasks)\<close> for one finished task:
  only a successful task gets an entry in \<open>results\<close>; the state is saved after
  every tenth task and after the last.
\<close>

definition collect ::
  "world \<Rightarrow> nat \<Rightarrow> outcome \<Rightarrow> dl_state \<times> (url \<rightharpoonup> string) \<times> nat
     \<Rightarrow> dl_state \<times> (url \<rightharpoonup> string) \<times> nat" where
  "collect w total_tasks oc acc =
     (case (oc, acc) of
        ((u, success, file_path, n), (st, results, completed_tasks)) \<Rightarrow>
          let completed_tasks = Suc completed_tasks;
              results = (if success then results(u \<mapsto> file_path) else results);
              st = (if completed_tasks mod 10 = 0 \<or> completed_tasks = total_tasks
                    then save_state w st else st)
          in (st, results, completed_tasks))"

text \<open>The loop itself, over the finished tasks in the order in which they finished.\<close>

fun collect_all ::
  "world \<Rightarrow> nat \<Rightarrow> outcome list \<Rightarrow> dl_state \<times> (url \<rightharpoonup> string) \<times> nat
     \<Rightarrow> dl_state \<times> (url \<rightharpoonup> string) \<times> nat" where
  "collect_all w total_tasks [] acc = acc"
| "collect_all w total_tasks (oc # ocs) acc =
     collect_all w total_tasks ocs (collect w total_tasks oc acc)"

text \<open>
  \<open>filenames\<close> is only read after a test for truth, so \<open>None\<close> and the empty
  list are both the empty list here.
\<close>

definition keep_names :: "(url \<Rightarrow> bool) \<Rightarrow> url list \<Rightarrow> string list \<Rightarrow> string list" where
  "keep_names keep urls filenames = map snd (filter (\<lambda>(u, f). keep u) (zip urls filenames))"

definition make_jobs :: "url list \<Rightarrow> string list \<Rightarrow> (url \<times> string option) list" where
  "make_jobs urls filenames =
     map (\<lambda>i. (urls ! i, if i < length filenames then Some (filenames ! i) else None))
       [0..<length urls]"

text \<open>
  Lines 801 to 847: which URLs are downloaded, under which names. \<open>None\<close> is one
  of the two early \<open>return {}\<close>.
\<close>

definition batch_plan ::
  "config \<Rightarrow> world \<Rightarrow> dl_state \<Rightarrow> url list \<Rightarrow> string list
     \<Rightarrow> (url \<times> string option) list option" where
  "batch_plan cfg w st urls filenames =
     (if urls = [] then None
      else
        let valid_urls = filter (validate_url w) urls;
            valid_filenames = keep_names (validate_url w) urls filenames;
            (urls, filenames) =
               (if length valid_urls < length urls then (valid_urls, valid_filenames)
                else (urls, filenames))
        in if urls = [] then None
           else
             let filenames =
                   (if filenames \<noteq> [] \<and> length urls \<noteq> length filenames then [] else filenames);
                 remaining_urls = filter (\<lambda>u. u \<notin> completed_urls st) urls;
                 remaining_filenames = keep_names (\<lambda>u. u \<notin> completed_urls st) urls filenames;
                 (urls, filenames) =
                    (if continue_from_state cfg \<and> length remaining_urls < length urls
                     then (remaining_urls, remaining_filenames) else (urls, filenames))
             in Some (make_jobs urls filenames))"

text \<open>Lines 849 to 860: without \<open>continue_from_state\<close> the counters start again.\<close>

definition reset_stats :: "config \<Rightarrow> dl_state \<Rightarrow> dl_state" where
  "reset_stats cfg st =
     (if continue_from_state cfg then st
      else st\<lparr>successful := 0, failed := 0, skipped := 0, total_bytes := 0,
              completed_urls := {}\<rparr>)"

text \<open>The outcomes of the tasks of a batch, in the order in which they finished.\<close>

definition batch_outcomes ::
  "config \<Rightarrow> world \<Rightarrow> dl_state \<Rightarrow> url list \<Rightarrow> string list \<Rightarrow> outcome list" where
  "batch_outcomes cfg w st urls filenames =
     (case batch_plan cfg w st urls filenames of
        None \<Rightarrow> []
      | Some jobs \<Rightarrow> snd (run_tasks cfg w jobs (reset_stats cfg st)))"

definition download_batch ::
  "config \<Rightarrow> world \<Rightarrow> dl_state \<Rightarrow> url list \<Rightarrow> string list \<Rightarrow> dl_state \<times> (url \<rightharpoonup> string)" where
  "download_batch cfg w st urls filenames =
     (case batch_plan cfg w st urls filenames of
        None \<Rightarrow> (st, Map.empty)
      | Some jobs \<Rightarrow>
          let (st1, ocs) = run_tasks cfg w jobs (reset_stats cfg st);
              (st2, results, completed_tasks) =
                 collect_all w (length jobs) ocs (st1, Map.empty, 0);
              st3 = cleanup_progress_bars cfg st2
          in (save_state w st3, results))"

subsection \<open>main\<close>

text \<open>
  The parsed command line, with the URLs read from \<open>--file\<close>, the headers of
  \<open>--header\<close> and the table of \<open>--name-map\<close> already read, and whether tqdm could
  be imported.
\<close>

record args =
  a_urls :: "url list"
  a_file_urls :: "url list"
  a_output_dir :: path
  a_retries :: int
  a_headers :: header_map
  a_no_resume :: bool
  a_overwrite :: bool
  a_default_suffix :: string
  a_force_suffix :: bool
  a_name_map :: "url \<rightharpoonup> string"
  a_no_progress :: bool
  a_tqdm_available :: bool
  a_random_delay :: bool
  a_min_delay :: real
  a_max_delay :: real
  a_continue_download :: bool

definition config_of_args :: "args \<Rightarrow> config" where
  "config_of_args a =
     \<lparr>output_dir = a_output_dir a, max_retries = a_retries a,
      headers = set_default (a_headers a) ''User-Agent'' (user_agents ! 0),
      resume = (\<not> a_no_resume a), overwrite = a_overwrite a,
      default_suffix = a_default_suffix a,
      force_suffix = (a_force_suffix a \<and> a_default_suffix a \<noteq> []),
      filename_map = a_name_map a, random_delay = a_random_delay a,
      min_delay = a_min_delay a, max_delay = a_max_delay a,
      continue_from_state = a_continue_download a,
      use_tqdm = (a_tqdm_available a \<and> \<not> a_no_progress a)\<rparr>"

text \<open>
  \<open>__init__\<close>: empty counters and tables over the files on disk; with
  \<open>continue_from_state\<close> and a state file, \<open>_load_state\<close> restores the completed
  URLs.
\<close>

definition init_state :: "config \<Rightarrow> (path \<rightharpoonup> byte list) \<Rightarrow> persisted option \<Rightarrow> dl_state" where
  "init_state cfg disk state_file =
     \<lparr>successful = 0, failed = 0, skipped = 0, total_bytes = 0,
      completed_urls =
        (case (if continue_from_state cfg then state_file else None) of
           None \<Rightarrow> {} | Some p \<Rightarrow> p_completed_urls p),
      domain_cooldown = Map.empty, progress_bars = Map.empty, files = disk,
      saved = state_file, tick = 0, trace = []\<rparr>"

text \<open>
  \<open>main\<close> returns nothing when there is no URL, 1 when the constructor of the
  downloader raises (\<open>init_raises\<close>; \<open>download_batch\<close> itself catches what its
  tasks raise), and 0 once \<open>download_batch\<close> has returned. It does not read the
  counters. The second component is the downloader's last state.
\<close>

definition main ::
  "args \<Rightarrow> world \<Rightarrow> (path \<rightharpoonup> byte list) \<Rightarrow> persisted option \<Rightarrow> bool
     \<Rightarrow> int option \<times> dl_state option" where
  "main a w disk state_file init_raises =
     (let urls = a_urls a @ a_file_urls a
      in if urls = [] then (None, None)
         else if init_raises then (Some 1, None)
         else (let cfg = config_of_args a;
                   (st, result) = download_batch cfg w (init_state cfg disk state_file) urls [];
                   successful_count = length (filter (\<lambda>u. result u \<noteq> None) urls)
               in (Some 0, Some st)))"

text \<open>\<open>sys.exit(exit_code)\<close>: \<open>None\<close> is the exit status 0.\<close>

definition exit_status :: "int option \<Rightarrow> int" where
  "exit_status exit_code = (case exit_code of None \<Rightarrow> 0 | Some c \<Rightarrow> c)"

section \<open>What the properties speak about\<close>

text \<open>
  A GET of either kind, and a GET of the retry loop, in the history; the headers of
  the request the retry loop sends; the path of the final file of a job.
\<close>

fun is_get :: "event \<Rightarrow> bool" where
  "is_get (EvGet ph u h) = True"
| "is_get (EvHead u h) = False"
| "is_get (EvSleep d) = False"

fun is_transfer :: "event \<Rightarrow> bool" where
  "is_transfer (EvGet ph u h) = (ph = Transfer)"
| "is_transfer (EvHead u h) = False"
| "is_transfer (EvSleep d) = False"

text \<open>The \<open>Range\<close> headers of the GETs of the retry loop, oldest first.\<close>

fun transfer_ranges :: "event list \<Rightarrow> string option list" where
  "transfer_ranges [] = []"
| "transfer_ranges (EvGet ph u h # es) =
     (if ph = Transfer then h ''Range'' # transfer_ranges es else transfer_ranges es)"
| "transfer_ranges (EvHead u h # es) = transfer_ranges es"
| "transfer_ranges (EvSleep d # es) = transfer_ranges es"

definition request_headers :: "config \<Rightarrow> world \<Rightarrow> dl_state \<Rightarrow> url \<Rightarrow> header_map" where
  "request_headers cfg w st u =
     (case enhance_headers cfg w st u of None \<Rightarrow> headers cfg | Some (h, st') \<Rightarrow> h)"

definition final_path :: "config \<Rightarrow> world \<Rightarrow> dl_state \<Rightarrow> url \<Rightarrow> string option \<Rightarrow> path" where
  "final_path cfg w st u filename =
     w_path_join w (output_dir cfg) (fst (prepare cfg w st u filename))"

text \<open>
  Two states are \<open>idle\<close> when nothing but waiting and HEAD requests lies between
  them: the counters, the completed URLs, the bars, the files and the GETs of the
  history are the same.
\<close>

definition idle :: "dl_state \<Rightarrow> dl_state \<Rightarrow> bool" where
  "idle st st' \<longleftrightarrow>
     successful st' = successful st \<and> failed st' = failed st \<and> skipped st' = skipped st
     \<and> total_bytes st' = total_bytes st \<and> completed_urls st' = completed_urls st
     \<and> progress_bars st' = progress_bars st \<and> files st' = files st
     \<and> filter is_get (trace st') = filter is_get (trace st)"

text \<open>
  A streamed GET that ends in an exception of the kind the first handler of the
  retry loop catches (\<open>httpx.RequestError\<close>, \<open>httpx.HTTPStatusError\<close>).
\<close>

fun transient :: "exn \<Rightarrow> bool" where
  "transient RequestError = True"
| "transient (HTTPStatusError code) = True"
| "transient OtherError = False"

fun fails_transiently :: "stream_result \<Rightarrow> bool" where
  "fails_transiently (StreamFail e) = transient e"
| "fails_transiently (Stream resp chunks abort) =
     (case abort of None \<Rightarrow> False | Some e \<Rightarrow> transient e)"

text \<open>
  The state in which the request of an attempt is sent; the cooldown penalty of the
  first handler; and the two handlers as one function of the exception.
\<close>

definition request_state :: "config \<Rightarrow> world \<Rightarrow> dl_state \<Rightarrow> url \<Rightarrow> dl_state" where
  "request_state cfg w st u =
     (case enhance_headers cfg w st u of None \<Rightarrow> st | Some (h, st') \<Rightarrow> st')"

definition penalized :: "world \<Rightarrow> url \<Rightarrow> exn \<Rightarrow> int \<Rightarrow> dl_state \<Rightarrow> dl_state" where
  "penalized w u e k st =
     (case e of
        HTTPStatusError code \<Rightarrow> if code = 403 \<or> code = 429 then penalize w st u k else st
      | RequestError \<Rightarrow> st
      | OtherError \<Rightarrow> st)"

definition handle ::
  "config \<Rightarrow> world \<Rightarrow> url \<Rightarrow> path \<Rightarrow> bool \<Rightarrow> exn \<Rightarrow> dl_state \<Rightarrow> loop_state
     \<Rightarrow> dl_state \<times> step" where
  "handle cfg w u fp up e st ls =
     (case e of
        OtherError \<Rightarrow> on_other_error cfg w u fp up st ls
      | RequestError \<Rightarrow> on_request_error cfg w u fp up e st ls
      | HTTPStatusError code \<Rightarrow> on_request_error cfg w u fp up e st ls)"

text \<open>
  Two states are \<open>steady\<close> when the counters of jobs, the completed URLs, the
  cooldowns and the history are the same, and \<open>no_transfer\<close> when the counters of
  failures and successes and the GETs of the retry loop are.
\<close>

definition steady :: "dl_state \<Rightarrow> dl_state \<Rightarrow> bool" where
  "steady st st' \<longleftrightarrow>
     successful st' = successful st \<and> failed st' = failed st \<and> skipped st' = skipped st
     \<and> completed_urls st' = completed_urls st \<and> domain_cooldown st' = domain_cooldown st
     \<and> trace st' = trace st"

definition no_transfer :: "dl_state \<Rightarrow> dl_state \<Rightarrow> bool" where
  "no_transfer st st' \<longleftrightarrow>
     failed st' = failed st \<and> successful st' = successful st
     \<and> filter is_transfer (trace st') = filter is_transfer (trace st)"

text \<open>
  Every bar of the first state is still there in the second, with a total at least
  as large.
\<close>

definition bars_grow :: "dl_state \<Rightarrow> dl_state \<Rightarrow> bool" where
  "bars_grow st st' \<longleftrightarrow>
     (\<forall>v n t. progress_bars st v = Some (n, t)
        \<longrightarrow> (\<exists>n' t'. progress_bars st' v = Some (n', t') \<and> t \<le> t'))"




text \<open>
  The base that \<open>_check_domain_cooldown\<close> draws when it is in the state \<open>st\<close>
  (line 448), and the cooldowns that \<open>n\<close> passes of \<open>_check_domain_cooldown\<close> for
  one URL, one right after the other, write into the table of its origin.
\<close>

definition fresh_base :: "config \<Rightarrow> world \<Rightarrow> dl_state \<Rightarrow> real" where
  "fresh_base cfg w st =
     fst (random_uniform w (if random_delay cfg then min_delay cfg else 0)
            (if random_delay cfg then max_delay cfg else 0.5) st)"

fun cooldowns :: "config \<Rightarrow> world \<Rightarrow> url \<Rightarrow> nat \<Rightarrow> dl_state \<Rightarrow> real list" where
  "cooldowns cfg w u 0 st = []"
| "cooldowns cfg w u (Suc n) st =
     (case check_domain_cooldown cfg w st u of
        None \<Rightarrow> []
      | Some st' \<Rightarrow>
          (case w_urlparse w u of
             None \<Rightarrow> []
           | Some parsed_url \<Rightarrow>
               (case domain_cooldown st' (netloc parsed_url) of
                  None \<Rightarrow> cooldowns cfg w u n st'
                | Some (last_access, cooldown) \<Rightarrow> cooldown # cooldowns cfg w u n st')))"

section \<open>A small world to run the program in\<close>

text \<open>
  Stand-ins for the library functions on the few strings used below: the parts
  \<open>urlparse\<close> gives for four URLs, the text after the last slash, and the split at
  the last dot. The network of \<open>quiet_world\<close> refuses every request; the file
  operations succeed; the clock shows the number of the reading.
\<close>

definition test_urlparse :: "string \<Rightarrow> parse_result option" where
  "test_urlparse s =
     (if s = ''http://a.example/f.bin''
      then Some \<lparr>scheme = ''http'', netloc = ''a.example'', url_path = ''/f.bin''\<rparr>
      else if s = ''https://b.example/g.bin''
      then Some \<lparr>scheme = ''https'', netloc = ''b.example'', url_path = ''/g.bin''\<rparr>
      else if s = ''ftp://a.example/f.bin''
      then Some \<lparr>scheme = ''ftp'', netloc = ''a.example'', url_path = ''/f.bin''\<rparr>
      else if s = ''http:///f.bin''
      then Some \<lparr>scheme = ''http'', netloc = [], url_path = ''/f.bin''\<rparr>
      else None)"

definition test_basename :: "string \<Rightarrow> string" where
  "test_basename s = rev (takeWhile (\<lambda>c. c \<noteq> CHR ''/'') (rev s))"

definition test_splitext :: "string \<Rightarrow> string \<times> string" where
  "test_splitext s =
     (let ext = rev (takeWhile (\<lambda>c. c \<noteq> CHR ''.'') (rev s))
      in if CHR ''.'' \<in> set s
         then (take (length s - length ext - 1) s, CHR ''.'' # ext)
         else (s, []))"

definition quiet_world :: world where
  "quiet_world =
     \<lparr>w_urlparse = test_urlparse, w_unquote = (\<lambda>s. s), w_basename = test_basename,
      w_splitext = test_splitext, w_lower = (\<lambda>s. s),
      w_path_join = (\<lambda>d f. d @ ''/'' @ f),
      w_clock = (\<lambda>n. real n), w_random = (\<lambda>n. 1 / 2), w_randbelow = (\<lambda>n k. 0),
      w_head = (\<lambda>n u h. Inl RequestError),
      w_stream = (\<lambda>n u h. StreamFail RequestError),
      w_open_fails = (\<lambda>n. False), w_rename_fails = (\<lambda>n. False),
      w_copy_fails = (\<lambda>n. False), w_remove_fails = (\<lambda>n. False),
      w_state_write_fails = (\<lambda>n. False)\<rparr>"

definition plain_config :: config where
  "plain_config =
     \<lparr>output_dir = ''out'', max_retries = 2, headers = Map.empty, resume = True,
      overwrite = False, default_suffix = [], force_suffix = False,
      filename_map = Map.empty, random_delay = False, min_delay = 1, max_delay = 5,
      continue_from_state = False, use_tqdm = True\<rparr>"

definition fresh_state :: dl_state where
  "fresh_state = init_state plain_config Map.empty None"

text \<open>
  A server that holds the six bytes 1 to 6 and honours a \<open>Range\<close> header that
  asks for the bytes from the third on; and a disk with the first two bytes in the
  partial file.
\<close>

definition range_server :: "nat \<Rightarrow> url \<Rightarrow> header_map \<Rightarrow> stream_result" where
  "range_server n u h =
     (case h ''Range'' of
        None \<Rightarrow>
          Stream \<lparr>content_length = Length 6, content_type = None\<rparr> [[1, 2, 3], [4, 5, 6]] None
      | Some r \<Rightarrow>
          if r = ''bytes=2-''
          then Stream \<lparr>content_length = Length 4, content_type = None\<rparr> [[3, 4, 5, 6]] None
          else StreamFail (HTTPStatusError 416))"

definition range_world :: world where
  "range_world =
     quiet_world\<lparr>w_head := (\<lambda>n u h. Inr \<lparr>content_length = Length 6, content_type = None\<rparr>),
                 w_stream := range_server\<rparr>"

definition state_with_part :: dl_state where
  "state_with_part = fresh_state\<lparr>files := [''out/f.bin.part'' \<mapsto> [1, 2]]\<rparr>"

text \<open>
  A world whose server delivers the three bytes 1, 2, 3 and in which every rename and
  every copy fails; and a disk on which those three bytes are in the partial file.
\<close>

definition stuck_world :: world where
  "stuck_world =
     quiet_world\<lparr>w_stream := (\<lambda>n u h.
                    Stream \<lparr>content_length = Length 3, content_type = None\<rparr> [[1, 2, 3]] None),
                 w_rename_fails := (\<lambda>n. True), w_copy_fails := (\<lambda>n. True)\<rparr>"

definition state_done :: dl_state where
  "state_done = fresh_state\<lparr>files := [''out/f.bin.part'' \<mapsto> [1, 2, 3]]\<rparr>"

text \<open>
  A world whose server announces 500 bytes, delivers three and then breaks the
  connection; the local variables of a job whose size probe gave 1024, and of one
  whose size probe gave a megabyte.
\<close>

definition small_file_world :: world where
  "small_file_world =
     quiet_world\<lparr>w_stream := (\<lambda>n u h.
        Stream \<lparr>content_length = Length 500, content_type = None\<rparr> [[1, 2, 3]]
          (Some RequestError))\<rparr>"


definition first_loop_state :: loop_state where
  "first_loop_state =
     \<lparr>downloaded_bytes = 0, retry_count = 0, file_mode = Truncate, file_size = 1048576\<rparr>"

definition state_with_file :: dl_state where
  "state_with_file = fresh_state\<lparr>files := [''out/f.bin'' \<mapsto> [1, 2, 3]]\<rparr>"

text \<open>
  A configuration with \<open>--random-delay\<close>, one whose two delays are both \<open>-1\<close>, a
  state in which the origin of the URL has a cooldown of a tenth of a second, and a
  command line with one URL and the defaults of the parser.
\<close>

definition polite_config :: config where
  "polite_config = plain_config\<lparr>random_delay := True\<rparr>"

definition hasty_config :: config where
  "hasty_config = plain_config\<lparr>random_delay := True, min_delay := - 1, max_delay := - 1\<rparr>"

definition warm_state :: dl_state where
  "warm_state = fresh_state\<lparr>domain_cooldown := [''a.example'' \<mapsto> (0, 1 / 10)]\<rparr>"

definition plain_args :: args where
  "plain_args =
     \<lparr>a_urls = [''http://a.example/f.bin''], a_file_urls = [], a_output_dir = ''out'',
      a_retries = 3, a_headers = Map.empty, a_no_resume = False, a_overwrite = False,
      a_default_suffix = [], a_force_suffix = False, a_name_map = Map.empty,
      a_no_progress = False, a_tqdm_available = True, a_random_delay = False,
      a_min_delay = 1, a_max_delay = 5, a_continue_download = False\<rparr>"

section \<open>Properties\<close>

subsection \<open>Invalid URLs\<close>

text \<open>
  C6. For a URL whose scheme is neither http nor https, or whose host is empty (or
  that \<open>urlparse\<close> rejects), \<open>download_file\<close> returns the failure
  \<open>(False, "", 0)\<close> at once: the only change of the state is the counter
  \<open>failed\<close>, one higher, so no request was sent, nothing slept and nothing was
  retried.
\<close>

theorem download_file_invalid_url:
  assumes "\<forall>r. w_urlparse w u = Some r \<longrightarrow>
             (scheme r \<noteq> ''http'' \<and> scheme r \<noteq> ''https'') \<or> netloc r = []"
  shows "download_file cfg w st u filename up
           = (st\<lparr>failed := failed st + 1\<rparr>, Some (False, [], 0))
         \<and> trace (fst (download_file cfg w st u filename up)) = trace st"
proof -
  have "\<not> validate_url w u"
    using assms by (auto simp: validate_url_def split: option.splits)
  then show ?thesis
    by (simp add: download_file_def before_loop_def)
qed

theorem download_file_invalid_url_witness:
  "w_urlparse quiet_world ''ftp://a.example/f.bin''
     = Some \<lparr>scheme = ''ftp'', netloc = ''a.example'', url_path = ''/f.bin''\<rparr>
   \<and> download_file plain_config quiet_world fresh_state ''ftp://a.example/f.bin'' None True
       = (fresh_state\<lparr>failed := 1\<rparr>, Some (False, [], 0))
   \<and> trace (fst (download_file plain_config quiet_world fresh_state
                   ''ftp://a.example/f.bin'' None True)) = []"
  using download_file_invalid_url [of quiet_world "''ftp://a.example/f.bin''"
          plain_config fresh_state None True]
  by (simp add: quiet_world_def test_urlparse_def fresh_state_def init_state_def)

subsection \<open>What the preparation leaves alone\<close>

lemma idle_refl [simp]: "idle st st"
  by (simp add: idle_def)

lemma idle_trans: "idle a b \<Longrightarrow> idle b c \<Longrightarrow> idle a c"
  by (simp add: idle_def)

lemma idle_tick [simp]: "idle st (st\<lparr>tick := n\<rparr>)"
  by (simp add: idle_def)

lemma idle_time_now: "time_now w st = (t, st') \<Longrightarrow> idle st st'"
  by (auto simp: time_now_def idle_def)

lemma idle_random_uniform: "random_uniform w a b st = (r, st') \<Longrightarrow> idle st st'"
  by (auto simp: random_uniform_def idle_def)

lemma idle_sleep: "idle st (sleep d st)"
  by (simp add: sleep_def idle_def)

lemma idle_save_state: "idle st (save_state w st)"
  by (simp add: save_state_def idle_def time_now_def Let_def)

lemma idle_enhance_headers: "enhance_headers cfg w st u = Some (h, st') \<Longrightarrow> idle st st'"
  by (auto simp: enhance_headers_def idle_def Let_def split: option.splits prod.splits)

lemma idle_fetch_content_type: "fetch_content_type cfg w st u = (ct, st') \<Longrightarrow> idle st st'"
  by (auto simp: fetch_content_type_def Let_def idle_def split: option.splits sum.splits
           dest!: idle_enhance_headers)

lemma idle_get_filename_from_url:
  "get_filename_from_url cfg w st u = Some (name, st') \<Longrightarrow> idle st st'"
  by (auto simp: get_filename_from_url_def Let_def split: option.splits prod.splits if_splits
           dest: idle_time_now)

lemma idle_add_missing_suffix:
  "add_missing_suffix cfg w st u name = (name', st') \<Longrightarrow> idle st st'"
  by (auto simp: add_missing_suffix_def Let_def split: prod.splits if_splits
           dest: idle_fetch_content_type)

lemma idle_resolve_filename:
  "resolve_filename cfg w st u filename = (name, st') \<Longrightarrow> idle st st'"
  by (auto simp: resolve_filename_def Let_def
           split: option.splits prod.splits if_splits
           dest!: idle_add_missing_suffix idle_get_filename_from_url idle_time_now
           intro: idle_trans idle_trans [OF _ idle_tick])

lemma idle_check_domain_cooldown:
  "check_domain_cooldown cfg w st u = Some st' \<Longrightarrow> idle st st'"
  by (auto simp: check_domain_cooldown_def Let_def idle_def time_now_def random_uniform_def
                 sleep_def
           split: option.splits prod.splits if_splits)

lemma idle_prepare: "prepare cfg w st u filename = (name, st') \<Longrightarrow> idle st st'"
  apply (auto simp: prepare_def Let_def split: option.splits prod.splits if_splits
              dest!: idle_check_domain_cooldown idle_random_uniform idle_resolve_filename)
     apply (metis idle_trans idle_sleep)+
  done

lemma get_filename_from_url_valid:
  "validate_url w u \<Longrightarrow> \<exists>name st'. get_filename_from_url cfg w st u = Some (name, st')"
  by (auto simp: validate_url_def get_filename_from_url_def Let_def
           split: option.splits prod.splits)

subsection \<open>Files that are already there\<close>

text \<open>
  C9. For a valid URL whose final file exists, with \<open>overwrite\<close> off,
  \<open>download_file\<close> returns success with zero bytes, adds one to \<open>skipped\<close>, and
  sends no GET, neither of the size probe nor of the transfer: no file changes and
  \<open>total_bytes\<close> stays. This holds whether or not the URL is among the completed
  ones (then the path returned is built from the given or the derived name), and
  with \<open>resume\<close> on or off.
\<close>

theorem download_file_skips_existing:
  assumes valid: "validate_url w u"
    and keep: "\<not> overwrite cfg"
    and there: "files st (final_path cfg w st u filename) \<noteq> None"
  shows "\<exists>st' p. download_file cfg w st u filename up = (st', Some (True, p, 0))
           \<and> (u \<in> completed_urls st \<or> p = final_path cfg w st u filename)
           \<and> skipped st' = skipped st + 1
           \<and> filter is_get (trace st') = filter is_get (trace st)
           \<and> files st' = files st
           \<and> total_bytes st' = total_bytes st"
proof (cases "u \<in> completed_urls st")
  case True
  define st1 where "st1 = st\<lparr>skipped := skipped st + 1\<rparr>"
  define found where "found =
    (case filename of
       None \<Rightarrow> get_filename_from_url cfg w st1 u
     | Some given \<Rightarrow> if given = [] then get_filename_from_url cfg w st1 u else Some (given, st1))"
  obtain name st2 where f: "found = Some (name, st2)" and i: "idle st1 st2"
  proof (cases "\<exists>given. filename = Some given \<and> given \<noteq> []")
    case True
    then have "found = Some (the filename, st1)"
      by (auto simp: found_def)
    then show ?thesis using that by simp
  next
    case False
    then have "found = get_filename_from_url cfg w st1 u"
      by (auto simp: found_def split: option.splits)
    with get_filename_from_url_valid [OF valid, of cfg st1] idle_get_filename_from_url that
    show ?thesis by metis
  qed
  have "download_file cfg w st u filename up
          = (st2, Some (True, w_path_join w (output_dir cfg) name, 0))"
    using valid True f
    by (simp add: download_file_def before_loop_def Let_def st1_def [symmetric]
          found_def [symmetric])
  moreover have "skipped st2 = skipped st + 1"
    "filter is_get (trace st2) = filter is_get (trace st)"
    "files st2 = files st" "total_bytes st2 = total_bytes st"
    using i by (simp_all add: idle_def st1_def)
  ultimately show ?thesis using True by blast
next
  case False
  obtain name st3 where p: "prepare cfg w st u filename = (name, st3)"
    by (cases "prepare cfg w st u filename")
  have i: "idle st st3"
    using p by (rule idle_prepare)
  define file_path where "file_path = w_path_join w (output_dir cfg) name"
  have fp: "file_path = final_path cfg w st u filename"
    by (simp add: file_path_def final_path_def p)
  have ex: "files st3 file_path \<noteq> None"
    using there i by (simp add: fp idle_def)
  define st4 where "st4 = st3\<lparr>skipped := skipped st3 + 1,
                              completed_urls := insert u (completed_urls st3)\<rparr>"
  have "download_file cfg w st u filename up = (save_state w st4, Some (True, file_path, 0))"
    using valid False keep ex
    by (simp add: download_file_def before_loop_def Let_def p file_path_def [symmetric] st4_def)
  moreover have "idle st4 (save_state w st4)"
    by (rule idle_save_state)
  then have "skipped (save_state w st4) = skipped st + 1"
    "filter is_get (trace (save_state w st4)) = filter is_get (trace st)"
    "files (save_state w st4) = files st" "total_bytes (save_state w st4) = total_bytes st"
    using i by (simp_all add: idle_def st4_def)
  ultimately show ?thesis using fp by blast
qed

lemma final_path_state_with_file:
  "final_path plain_config quiet_world state_with_file ''http://a.example/f.bin'' None
     = ''out/f.bin''"
  by (simp add: final_path_def prepare_def check_domain_cooldown_def quiet_world_def
        test_urlparse_def plain_config_def state_with_file_def fresh_state_def init_state_def
        time_now_def random_uniform_def sleep_def Let_def resolve_filename_def
        get_filename_from_url_def test_basename_def test_splitext_def add_missing_suffix_def)

theorem download_file_skips_existing_witness:
  "validate_url quiet_world ''http://a.example/f.bin''
   \<and> \<not> overwrite plain_config
   \<and> files state_with_file ''out/f.bin'' = Some [1, 2, 3]
   \<and> (\<exists>st'. download_file plain_config quiet_world state_with_file
                ''http://a.example/f.bin'' None True = (st', Some (True, ''out/f.bin'', 0))
           \<and> skipped st' = 1
           \<and> filter is_get (trace st') = []
           \<and> files st' = files state_with_file
           \<and> total_bytes st' = 0)"
proof -
  have v: "validate_url quiet_world ''http://a.example/f.bin''"
    by (simp add: validate_url_def quiet_world_def test_urlparse_def)
  have k: "\<not> overwrite plain_config"
    by (simp add: plain_config_def)
  have f: "files state_with_file ''out/f.bin'' = Some [1, 2, 3]"
    by (simp add: state_with_file_def)
  have c: "''http://a.example/f.bin'' \<notin> completed_urls state_with_file"
    "skipped state_with_file = 0" "trace state_with_file = []"
    "total_bytes state_with_file = 0"
    by (simp_all add: state_with_file_def fresh_state_def init_state_def plain_config_def)
  have t: "files state_with_file
             (final_path plain_config quiet_world state_with_file ''http://a.example/f.bin'' None)
           \<noteq> None"
    by (simp add: final_path_state_with_file f)
  from download_file_skips_existing [OF v k t, of True] c v k f
  show ?thesis
    by (auto simp: final_path_state_with_file)
qed

subsection \<open>What one attempt changes\<close>

lemma steady_refl [simp]: "steady st st"
  by (simp add: steady_def)

lemma steady_trans: "steady a b \<Longrightarrow> steady b c \<Longrightarrow> steady a c"
  by (simp add: steady_def)

lemma steady_update_progress_bar [simp]: "steady st (update_progress_bar cfg st u n t)"
  by (simp add: update_progress_bar_def steady_def Let_def split: option.splits prod.splits)

lemma total_bytes_update_progress_bar [simp]:
  "total_bytes (update_progress_bar cfg st u n t) = total_bytes st"
  by (simp add: update_progress_bar_def Let_def split: option.splits prod.splits)

lemma write_chunk_frame:
  "write_chunk w tp c st = (t, st') \<Longrightarrow> steady st st' \<and> total_bytes st' = total_bytes st + int (length c)"
  by (auto simp: write_chunk_def time_now_def fs_write_def steady_def Let_def)

lemma write_chunks_frame:
  "write_chunks cfg w u tp up chunks (st, d, l) = (st', d', l')
     \<Longrightarrow> steady st st' \<and> d' - d = total_bytes st' - total_bytes st \<and> d \<le> d'"
proof (induction chunks arbitrary: st d l)
  case Nil
  then show ?case by (simp add: write_chunks.simps)
next
  case (Cons c cs)
  show ?case
  proof (cases "c = []")
    case True
    with Cons show ?thesis by (simp add: write_chunks.simps)
  next
    case False
    obtain t st3 where w1: "write_chunk w tp c st = (t, st3)"
      by (cases "write_chunk w tp c st")
    note f = write_chunk_frame [OF w1]
    show ?thesis
    proof (cases "up \<and> use_tqdm cfg \<and> t - l > 0.2")
      case True
      with Cons.prems False w1
      have "write_chunks cfg w u tp up cs
              (update_progress_bar cfg st3 u (int (length c)) None, d + int (length c), t)
            = (st', d', l')"
        by (simp add: write_chunks.simps Let_def)
      from Cons.IH [OF this] f show ?thesis
        by (auto simp: steady_def steady_update_progress_bar [unfolded steady_def])
    next
      case F2: False
      with Cons.prems False w1
      have "write_chunks cfg w u tp up cs (st3, d + int (length c), l) = (st', d', l')"
        by (auto simp: write_chunks.simps Let_def split: if_splits)
      from Cons.IH [OF this] f show ?thesis
        by (auto simp: steady_def)
    qed
  qed
qed


lemma steady_tick [simp]: "steady st (st\<lparr>tick := n\<rparr>)"
  by (simp add: steady_def)

lemma steady_time_now: "time_now w st = (t, st') \<Longrightarrow> steady st st' \<and> total_bytes st' = total_bytes st"
  by (auto simp: time_now_def steady_def)

lemma steady_fs_open: "fs_open w p m st = (ok, st') \<Longrightarrow> steady st st' \<and> total_bytes st' = total_bytes st"
  by (auto simp: fs_open_def steady_def Let_def split: if_splits)

lemma steady_learn_file_size:
  "learn_file_size cfg st u up resp ls = (st', ls')
     \<Longrightarrow> steady st st' \<and> total_bytes st' = total_bytes st
         \<and> retry_count ls' = retry_count ls \<and> downloaded_bytes ls' = downloaded_bytes ls
         \<and> file_mode ls' = file_mode ls"
  by (auto simp: learn_file_size_def Let_def steady_def
             steady_update_progress_bar [unfolded steady_def]
           split: content_length.splits if_splits prod.splits)

lemma steady_enhance_headers:
  "enhance_headers cfg w st u = Some (h, st') \<Longrightarrow> steady st st' \<and> total_bytes st' = total_bytes st"
  by (auto simp: enhance_headers_def steady_def Let_def split: option.splits prod.splits)

lemma steady_request_state: "steady st (request_state cfg w st u)"
  "total_bytes (request_state cfg w st u) = total_bytes st"
  by (auto simp: request_state_def split: option.splits dest: steady_enhance_headers)

lemma stream_attempt_unfold:
  "stream_attempt cfg w u tp up st ls =
     (let hdrs = request_headers cfg w st u;
          st0 = request_state cfg w st u;
          st1 = st0\<lparr>tick := Suc (tick st0), trace := trace st0 @ [EvGet Transfer u hdrs]\<rparr>
      in (case w_stream w (tick st0) u hdrs of
            StreamFail e \<Rightarrow> (Some e, st1, ls)
          | Stream resp chunks abort \<Rightarrow>
              let (st2, ls) = learn_file_size cfg st1 u up resp ls;
                  (opened, st3) = fs_open w tp (file_mode ls) st2
              in if opened
                 then (let (last_update, st4) = time_now w st3;
                           (st5, downloaded, last) =
                              write_chunks cfg w u tp up chunks
                                (st4, downloaded_bytes ls, last_update);
                           ls = ls\<lparr>downloaded_bytes := downloaded\<rparr>
                       in (case abort of
                             None \<Rightarrow> (None, st5, ls)
                           | Some e \<Rightarrow> (Some e, st5, ls\<lparr>file_mode := Append\<rparr>)))
                 else (Some OtherError, st3, ls)))"
  by (simp add: stream_attempt_def request_headers_def request_state_def Let_def
           split: option.splits prod.splits)

lemma stream_attempt_frame:
  assumes "stream_attempt cfg w u tp up st ls = (e, st', ls')"
  shows "trace st' = trace st @ [EvGet Transfer u (request_headers cfg w st u)]"
    and "failed st' = failed st" and "successful st' = successful st"
    and "skipped st' = skipped st" and "completed_urls st' = completed_urls st"
    and "domain_cooldown st' = domain_cooldown st"
    and "retry_count ls' = retry_count ls"
    and "downloaded_bytes ls' = downloaded_bytes ls + (total_bytes st' - total_bytes st)"
    and "downloaded_bytes ls \<le> downloaded_bytes ls'"
proof -
  define hdrs where "hdrs = request_headers cfg w st u"
  define st0 where "st0 = request_state cfg w st u"
  define st1 where "st1 = st0\<lparr>tick := Suc (tick st0), trace := trace st0 @ [EvGet Transfer u hdrs]\<rparr>"
  have s0: "steady st st0" "total_bytes st0 = total_bytes st"
    by (simp_all add: st0_def steady_request_state)
  have s1: "trace st1 = trace st @ [EvGet Transfer u hdrs]" "failed st1 = failed st"
    "successful st1 = successful st" "skipped st1 = skipped st"
    "completed_urls st1 = completed_urls st" "domain_cooldown st1 = domain_cooldown st"
    "total_bytes st1 = total_bytes st"
    using s0 by (simp_all add: st1_def steady_def)
  have all: "trace st' = trace st @ [EvGet Transfer u hdrs] \<and> failed st' = failed st
      \<and> successful st' = successful st \<and> skipped st' = skipped st
      \<and> completed_urls st' = completed_urls st \<and> domain_cooldown st' = domain_cooldown st
      \<and> retry_count ls' = retry_count ls
      \<and> downloaded_bytes ls' = downloaded_bytes ls + (total_bytes st' - total_bytes st)
      \<and> downloaded_bytes ls \<le> downloaded_bytes ls'"
  proof (cases "w_stream w (tick st0) u hdrs")
    case (StreamFail x)
    with assms have "st' = st1" "ls' = ls"
      by (simp_all add: stream_attempt_unfold Let_def hdrs_def [symmetric] st0_def [symmetric]
            st1_def [symmetric])
    with s1 show ?thesis by simp
  next
    case (Stream resp chunks abort)
    obtain st2 ls2 where l: "learn_file_size cfg st1 u up resp ls = (st2, ls2)"
      by (cases "learn_file_size cfg st1 u up resp ls")
    obtain opened st3 where o: "fs_open w tp (file_mode ls2) st2 = (opened, st3)"
      by (cases "fs_open w tp (file_mode ls2) st2")
    note fl = steady_learn_file_size [OF l]
    note fo = steady_fs_open [OF o]
    show ?thesis
    proof (cases opened)
      case False
      with assms Stream l o have "st' = st3" "ls' = ls2"
        by (simp_all add: stream_attempt_unfold Let_def hdrs_def [symmetric] st0_def [symmetric]
              st1_def [symmetric])
      with s1 fl fo show ?thesis by (simp add: steady_def)
    next
      case True
      obtain t st4 where n: "time_now w st3 = (t, st4)"
        by (cases "time_now w st3")
      obtain st5 d l' where c: "write_chunks cfg w u tp up chunks (st4, downloaded_bytes ls2, t) = (st5, d, l')"
        by (cases "write_chunks cfg w u tp up chunks (st4, downloaded_bytes ls2, t)")
      note fn = steady_time_now [OF n]
      note fc = write_chunks_frame [OF c]
      from assms Stream l o True n c
      have "st' = st5" "retry_count ls' = retry_count ls2" "downloaded_bytes ls' = d"
        by (auto simp: stream_attempt_unfold Let_def hdrs_def [symmetric] st0_def [symmetric]
              st1_def [symmetric] split: option.splits)
      with s1 fl fo fn fc show ?thesis by (simp add: steady_def)
    qed
  qed
  then show "trace st' = trace st @ [EvGet Transfer u (request_headers cfg w st u)]"
    and "failed st' = failed st" and "successful st' = successful st"
    and "skipped st' = skipped st" and "completed_urls st' = completed_urls st"
    and "domain_cooldown st' = domain_cooldown st"
    and "retry_count ls' = retry_count ls"
    and "downloaded_bytes ls' = downloaded_bytes ls + (total_bytes st' - total_bytes st)"
    and "downloaded_bytes ls \<le> downloaded_bytes ls'"
    by (simp_all add: hdrs_def)
qed


lemma attempt_raised:
  "stream_attempt cfg w u tp up st ls = (Some e, st1, ls1)
     \<Longrightarrow> attempt cfg w u fp tp up st ls = handle cfg w u fp up e st1 ls1"
  by (simp add: attempt_def handle_def split: exn.splits)

lemma penalize_frame:
  "failed (penalize w st u k) = failed st" "trace (penalize w st u k) = trace st"
  "total_bytes (penalize w st u k) = total_bytes st"
  "successful (penalize w st u k) = successful st"
  by (simp_all add: penalize_def time_now_def Let_def split: option.splits prod.splits)

lemma give_up_frame:
  "give_up cfg u fp up st ls = (st', s)
     \<Longrightarrow> s = Done (False, fp, downloaded_bytes ls) \<and> failed st' = failed st + 1
         \<and> trace st' = trace st \<and> successful st' = successful st"
  by (auto simp: give_up_def close_progress_bar_def Let_def split: option.splits)

lemma backoff_frame:
  "backoff w st ls = (st', s)
     \<Longrightarrow> s = Again ls \<and> failed st' = failed st \<and> successful st' = successful st
         \<and> total_bytes st' = total_bytes st
         \<and> trace st' = trace st @ [EvSleep (2 ^ nat (retry_count ls) + 2 * w_random w (tick st))]"
  by (auto simp: backoff_def random_uniform_def sleep_def Let_def)

lemma penalized_frame:
  "failed (penalized w u e k st) = failed st" "trace (penalized w u e k st) = trace st"
  "total_bytes (penalized w u e k st) = total_bytes st"
  "successful (penalized w u e k st) = successful st"
  by (simp_all add: penalized_def penalize_frame split: exn.splits)

lemma handle_unfold:
  "handle cfg w u fp up e st ls =
     (let ls1 = ls\<lparr>retry_count := retry_count ls + 1\<rparr>;
          st1 = penalized w u e (retry_count ls1) st
      in if retry_count ls1 > max_retries cfg then give_up cfg u fp up st1 ls1
         else backoff w st1 ls1)"
  by (simp add: handle_def on_request_error_def on_other_error_def penalized_def Let_def
           split: exn.splits)

lemma handle_gives_up:
  assumes "handle cfg w u fp up e st ls = (st', s)" and "max_retries cfg < retry_count ls + 1"
  shows "s = Done (False, fp, downloaded_bytes ls)" and "failed st' = failed st + 1"
    and "trace st' = trace st" and "successful st' = successful st"
  using assms give_up_frame [of cfg u fp up "penalized w u e (retry_count ls + 1) st"
                               "ls\<lparr>retry_count := retry_count ls + 1\<rparr>" st' s]
  by (simp_all add: handle_unfold Let_def penalized_frame)

lemma handle_backs_off:
  assumes "handle cfg w u fp up e st ls = (st', s)" and "retry_count ls + 1 \<le> max_retries cfg"
  shows "s = Again (ls\<lparr>retry_count := retry_count ls + 1\<rparr>)" and "failed st' = failed st"
    and "successful st' = successful st" and "total_bytes st' = total_bytes st"
    and "\<exists>n. trace st' = trace st @ [EvSleep (2 ^ nat (retry_count ls + 1) + 2 * w_random w n)]"
  using assms backoff_frame [of w "penalized w u e (retry_count ls + 1) st"
                               "ls\<lparr>retry_count := retry_count ls + 1\<rparr>" st' s]
  by (auto simp: handle_unfold Let_def penalized_frame)

lemma stream_attempt_raises:
  assumes "\<forall>n h. fails_transiently (w_stream w n u h)"
  shows "\<exists>e st1 ls1. stream_attempt cfg w u tp up st ls = (Some e, st1, ls1)"
proof -
  define hdrs where "hdrs = request_headers cfg w st u"
  define st0 where "st0 = request_state cfg w st u"
  have f: "fails_transiently (w_stream w (tick st0) u hdrs)"
    using assms by simp
  show ?thesis
  proof (cases "w_stream w (tick st0) u hdrs")
    case (StreamFail x)
    then show ?thesis
      by (simp add: stream_attempt_unfold Let_def hdrs_def [symmetric] st0_def [symmetric])
  next
    case (Stream resp chunks abort)
    with f obtain e where "abort = Some e"
      by (cases abort) auto
    with Stream show ?thesis
      by (simp add: stream_attempt_unfold Let_def hdrs_def [symmetric] st0_def [symmetric]
            split: prod.splits)
  qed
qed

lemma download_loop_exhausts:
  "\<forall>n h. fails_transiently (w_stream w n u h) \<Longrightarrow> retry_count ls \<le> max_retries cfg \<Longrightarrow>
         \<exists>st' d. download_loop cfg w u fp tp up st ls = (st', Some (False, fp, d))
            \<and> failed st' = failed st + 1 \<and> successful st' = successful st
            \<and> length (filter is_transfer (trace st'))
                = length (filter is_transfer (trace st)) + nat (max_retries cfg - retry_count ls) + 1"
proof (induction cfg w u fp tp up st ls rule: download_loop.induct)
  case (1 cfg w u fp tp up st ls)
  note fails = "1.prems"(1)
  note bound = "1.prems"(2)
  obtain e st1 ls1 where sa: "stream_attempt cfg w u tp up st ls = (Some e, st1, ls1)"
    using stream_attempt_raises [OF fails] by blast
  note fr = stream_attempt_frame [OF sa]
  obtain st2 s where h: "handle cfg w u fp up e st1 ls1 = (st2, s)"
    by (cases "handle cfg w u fp up e st1 ls1")
  have at: "attempt cfg w u fp tp up st ls = (st2, s)"
    using attempt_raised [OF sa] h by simp
  show ?case
  proof (cases "retry_count ls + 1 \<le> max_retries cfg")
    case False
    with bound have eq: "retry_count ls = max_retries cfg" by simp
    from False have "max_retries cfg < retry_count ls1 + 1"
      using fr(7) by simp
    note g = handle_gives_up [OF h this]
    have "download_loop cfg w u fp tp up st ls = (st2, Some (False, fp, downloaded_bytes ls1))"
      using bound at g(1) by (simp add: download_loop.simps [of cfg w u fp tp up st ls])
    with g fr eq show ?thesis by simp
  next
    case True
    then have "retry_count ls1 + 1 \<le> max_retries cfg"
      using fr(7) by simp
    note b = handle_backs_off [OF h this]
    define ls2 where "ls2 = ls1\<lparr>retry_count := retry_count ls1 + 1\<rparr>"
    have s: "s = Again ls2" using b(1) by (simp add: ls2_def)
    have r2: "retry_count ls2 = retry_count ls + 1"
      using fr(7) by (simp add: ls2_def)
    have le: "retry_count ls2 \<le> max_retries cfg"
      using True r2 by simp
    from "1.IH" [OF bound at [symmetric, unfolded s] refl fails le]
    obtain st' d where
      dl: "download_loop cfg w u fp tp up st2 ls2 = (st', Some (False, fp, d))"
      and f': "failed st' = failed st2 + 1" and s': "successful st' = successful st2"
      and t': "length (filter is_transfer (trace st'))
                = length (filter is_transfer (trace st2)) + nat (max_retries cfg - retry_count ls2) + 1"
      by blast
    have "download_loop cfg w u fp tp up st ls = (st', Some (False, fp, d))"
      using bound at s dl by (simp add: download_loop.simps [of cfg w u fp tp up st ls])
    moreover obtain n where "trace st2 = trace st1 @ [EvSleep (2 ^ nat (retry_count ls1 + 1) + 2 * w_random w n)]"
      using b(5) by blast
    then have "length (filter is_transfer (trace st2)) = length (filter is_transfer (trace st)) + 1"
      using fr(1) by simp
    moreover have "nat (max_retries cfg - retry_count ls) = nat (max_retries cfg - retry_count ls2) + 1"
      using True r2 by simp
    ultimately show ?thesis
      using f' s' t' b fr by simp
  qed
qed


lemma filter_transfer_get: "filter is_transfer (filter is_get xs) = filter is_transfer xs"
proof (induction xs)
  case Nil
  then show ?case by simp
next
  case (Cons x xs)
  then show ?case by (cases x) simp_all
qed

lemma idle_no_transfer:
  assumes "idle st st'"
  shows "no_transfer st st'"
proof -
  have "filter is_transfer (filter is_get (trace st')) = filter is_transfer (filter is_get (trace st))"
    using assms by (simp add: idle_def)
  then have "filter is_transfer (trace st') = filter is_transfer (trace st)"
    by (simp only: filter_transfer_get)
  then show ?thesis
    using assms by (simp add: idle_def no_transfer_def)
qed

lemma no_transfer_fetch_file_size:
  assumes "fetch_file_size cfg w st u = (n, st')"
  shows "no_transfer st st'"
proof (cases "enhance_headers cfg w st u")
  case None
  with assms show ?thesis
    by (simp add: fetch_file_size_def no_transfer_def)
next
  case (Some a)
  obtain hdrs st1 where a: "a = (hdrs, st1)"
    by (cases a)
  have s1: "steady st st1"
    using steady_enhance_headers Some a by blast
  define st2 where "st2 = st1\<lparr>tick := Suc (tick st1), trace := trace st1 @ [EvHead u hdrs]\<rparr>"
  define st3 where "st3 = st2\<lparr>tick := Suc (tick st2), trace := trace st2 @ [EvGet Probe u hdrs]\<rparr>"
  have "st' = st2 \<or> st' = st3"
    using assms Some a unfolding st3_def st2_def
    by (simp add: fetch_file_size_def Let_def split: option.splits)
  moreover have "no_transfer st st2" "no_transfer st st3"
    using s1 by (simp_all add: st2_def st3_def no_transfer_def steady_def)
  ultimately show ?thesis by blast
qed

lemma no_transfer_fs_rename: "fs_rename w src dst st = (ok, st') \<Longrightarrow> no_transfer st st'"
  by (auto simp: fs_rename_def no_transfer_def Let_def split: option.splits if_splits)

lemma no_transfer_update_progress_bar: "no_transfer st (update_progress_bar cfg st u n t)"
  using steady_update_progress_bar [of st cfg u n t] by (simp add: steady_def no_transfer_def)

lemma no_transfer_trans: "no_transfer a b \<Longrightarrow> no_transfer b c \<Longrightarrow> no_transfer a c"
  by (simp add: no_transfer_def)

lemma no_transfer_refl [simp]: "no_transfer st st"
  by (simp add: no_transfer_def)

lemma no_transfer_resume_check:
  assumes "resume_check cfg w u fp tp up st ls = (st', Again ls')"
  shows "no_transfer st st'" and "retry_count ls' = retry_count ls"
proof -
  show "no_transfer st st'"
  proof (cases "if resume cfg then files st tp else None")
    case None
    with assms show ?thesis by (simp add: resume_check_def)
  next
    case (Some content)
    define st1 where "st1 = (if up \<and> use_tqdm cfg
                     then update_progress_bar cfg st u (int (length content)) None else st)"
    have n1: "no_transfer st st1"
      by (simp add: st1_def no_transfer_update_progress_bar)
    obtain ok st2 where r: "fs_rename w tp fp st1 = (ok, st2)"
      by (cases "fs_rename w tp fp st1")
    have "st' = st1 \<or> st' = st2"
      using assms Some r unfolding st1_def [symmetric]
      by (simp add: resume_check_def Let_def st1_def [symmetric] split: if_splits)
    with n1 no_transfer_fs_rename [OF r] show ?thesis
      by (auto intro: no_transfer_trans)
  qed
  show "retry_count ls' = retry_count ls"
    using assms
    by (auto simp: resume_check_def Let_def split: option.splits if_splits prod.splits)
qed

subsection \<open>Before the loop\<close>

lemma before_loop_invalid:
  "\<not> validate_url w u \<Longrightarrow> snd (before_loop cfg w st u filename up) = Inl (False, [], 0)"
  by (simp add: before_loop_def)

lemma before_loop_completed:
  "validate_url w u \<Longrightarrow> u \<in> completed_urls st
     \<Longrightarrow> \<exists>r. snd (before_loop cfg w st u filename up) = Inl r"
  by (auto simp: before_loop_def Let_def uncaught_def split: option.splits prod.splits)

lemma before_loop_skip:
  "validate_url w u \<Longrightarrow> u \<notin> completed_urls st \<Longrightarrow> prepare cfg w st u filename = (name, st3)
     \<Longrightarrow> files st3 (w_path_join w (output_dir cfg) name) \<noteq> None \<Longrightarrow> \<not> overwrite cfg
     \<Longrightarrow> snd (before_loop cfg w st u filename up)
           = Inl (True, w_path_join w (output_dir cfg) name, 0)"
  by (simp add: before_loop_def Let_def)

lemma before_loop_transfer:
  "validate_url w u \<Longrightarrow> u \<notin> completed_urls st \<Longrightarrow> prepare cfg w st u filename = (name, st3)
     \<Longrightarrow> \<not> (files st3 (w_path_join w (output_dir cfg) name) \<noteq> None \<and> \<not> overwrite cfg)
     \<Longrightarrow> fetch_file_size cfg w st3 u = (n, st4)
     \<Longrightarrow> before_loop cfg w st u filename up =
          (let file_path = w_path_join w (output_dir cfg) name;
               temp_path = part_path file_path;
               fsize = (if n \<le> 0 then 1024 * 1024 else n)
           in (case resume_check cfg w u file_path temp_path up
                      (if up \<and> use_tqdm cfg \<and> progress_bars st4 u = None
                       then create_progress_bar cfg st4 u fsize else st4)
                      \<lparr>downloaded_bytes = 0, retry_count = 0,
                       file_mode = (if resume cfg \<and> files st3 temp_path \<noteq> None
                                    then Append else Truncate),
                       file_size = fsize\<rparr> of
                 (st6, Done r) \<Rightarrow> (st6, Inl r)
               | (st6, Again ls1) \<Rightarrow> (st6, Inr (file_path, temp_path, ls1))))"
  by (cases "overwrite cfg") (simp_all add: before_loop_def Let_def)

lemma before_loop_enters:
  assumes "before_loop cfg w st u filename up = (st', Inr (fp, tp, ls))"
  shows "no_transfer st st'" and "retry_count ls = 0"
proof -
  have v: "validate_url w u"
    using assms before_loop_invalid [of w u cfg st filename up] by auto
  have nc: "u \<notin> completed_urls st"
    using assms before_loop_completed [OF v, of st cfg filename up] by auto
  obtain name st3 where p: "prepare cfg w st u filename = (name, st3)"
    by (cases "prepare cfg w st u filename")
  have nskip: "\<not> (files st3 (w_path_join w (output_dir cfg) name) \<noteq> None \<and> \<not> overwrite cfg)"
  proof
    assume "files st3 (w_path_join w (output_dir cfg) name) \<noteq> None \<and> \<not> overwrite cfg"
    then have "snd (before_loop cfg w st u filename up)
                 = Inl (True, w_path_join w (output_dir cfg) name, 0)"
      using before_loop_skip [OF v nc p] by blast
    with assms show False by simp
  qed
  obtain n st4 where f: "fetch_file_size cfg w st3 u = (n, st4)"
    by (cases "fetch_file_size cfg w st3 u")
  define file_path where "file_path = w_path_join w (output_dir cfg) name"
  define fsize where "fsize = (if n \<le> 0 then 1024 * 1024 else n)"
  define st5 where "st5 = (if up \<and> use_tqdm cfg \<and> progress_bars st4 u = None
                        then create_progress_bar cfg st4 u fsize else st4)"
  define ls0 where "ls0 = \<lparr>downloaded_bytes = 0, retry_count = 0,
     file_mode = (if resume cfg \<and> files st3 (part_path file_path) \<noteq> None then Append else Truncate),
     file_size = fsize\<rparr>"
  have bl: "before_loop cfg w st u filename up =
          (case resume_check cfg w u file_path (part_path file_path) up st5 ls0 of
             (st6, Done r) \<Rightarrow> (st6, Inl r)
           | (st6, Again ls1) \<Rightarrow> (st6, Inr (file_path, part_path file_path, ls1)))"
    unfolding before_loop_transfer [OF v nc p nskip f] st5_def ls0_def fsize_def file_path_def
      Let_def ..
  obtain st6 s6 where r6: "resume_check cfg w u file_path (part_path file_path) up st5 ls0 = (st6, s6)"
    by (cases "resume_check cfg w u file_path (part_path file_path) up st5 ls0")
  have rc: "resume_check cfg w u file_path (part_path file_path) up st5 ls0 = (st', Again ls)"
    using assms bl r6 by (cases s6) simp_all
  have "no_transfer st st3"
    using idle_prepare [OF p] by (rule idle_no_transfer)
  moreover have "no_transfer st3 st4"
    using f by (rule no_transfer_fetch_file_size)
  moreover have "no_transfer st4 st5"
    by (simp add: st5_def no_transfer_def create_progress_bar_def)
  moreover note no_transfer_resume_check [OF rc]
  ultimately show "no_transfer st st'" and "retry_count ls = 0"
    by (simp_all add: no_transfer_def ls0_def)
qed

subsection \<open>The bound on retries\<close>

text \<open>
  C5. Take a job that reaches the retry loop of \<open>download_file\<close>, a URL for which
  every streamed GET ends in a transient error (at once or while the body is read),
  and \<open>max_retries\<close> not negative. Then \<open>download_file\<close> sends exactly
  \<open>max_retries + 1\<close> GETs of the transfer (the first attempt and \<open>max_retries\<close>
  retries), returns failure with the path of the final file, and leaves \<open>failed\<close>
  exactly one higher and \<open>successful\<close> as it was.
\<close>

theorem download_file_retry_bound:
  assumes enters: "before_loop cfg w st u filename up = (st0, Inr (fp, tp, ls0))"
    and fails: "\<forall>n h. fails_transiently (w_stream w n u h)"
    and nonneg: "0 \<le> max_retries cfg"
  shows "\<exists>st' d. download_file cfg w st u filename up = (st', Some (False, fp, d))
           \<and> failed st' = failed st + 1
           \<and> successful st' = successful st
           \<and> length (filter is_transfer (trace st'))
               = length (filter is_transfer (trace st)) + nat (max_retries cfg) + 1"
proof -
  note e = before_loop_enters [OF enters]
  have "retry_count ls0 \<le> max_retries cfg"
    using e(2) nonneg by simp
  from download_loop_exhausts [OF fails this, of fp tp up st0]
  obtain st' d where "download_loop cfg w u fp tp up st0 ls0 = (st', Some (False, fp, d))"
    "failed st' = failed st0 + 1" "successful st' = successful st0"
    "length (filter is_transfer (trace st'))
       = length (filter is_transfer (trace st0)) + nat (max_retries cfg - retry_count ls0) + 1"
    by blast
  moreover have "download_file cfg w st u filename up = download_loop cfg w u fp tp up st0 ls0"
    by (simp add: download_file_def enters)
  ultimately show ?thesis
    using e by (simp add: no_transfer_def)
qed


lemmas run_defs =
  before_loop_def prepare_def check_domain_cooldown_def resolve_filename_def
  get_filename_from_url_def add_missing_suffix_def fetch_file_size_def enhance_headers_def
  set_default_def size_of_headers_def create_progress_bar_def resume_check_def
  time_now_def random_uniform_def sleep_def part_path_def validate_url_def
  quiet_world_def test_urlparse_def test_basename_def test_splitext_def
  plain_config_def fresh_state_def init_state_def Let_def

lemma quiet_entry:
  "snd (before_loop plain_config quiet_world fresh_state ''http://a.example/f.bin'' None True)
     = Inr (''out/f.bin'', ''out/f.bin.part'',
            \<lparr>downloaded_bytes = 0, retry_count = 0, file_mode = Truncate, file_size = 1048576\<rparr>)"
  by (simp add: run_defs)

theorem download_file_retry_bound_witness:
  "(\<forall>n h. fails_transiently (w_stream quiet_world n ''http://a.example/f.bin'' h))
   \<and> max_retries plain_config = 2
   \<and> (\<exists>st' d. download_file plain_config quiet_world fresh_state ''http://a.example/f.bin''
                   None True = (st', Some (False, ''out/f.bin'', d))
          \<and> failed st' = 1
          \<and> length (filter is_transfer (trace st')) = 3)"
proof -
  have f: "\<forall>n h. fails_transiently (w_stream quiet_world n ''http://a.example/f.bin'' h)"
    by (simp add: quiet_world_def)
  have m: "max_retries plain_config = 2"
    by (simp add: plain_config_def)
  have e: "before_loop plain_config quiet_world fresh_state ''http://a.example/f.bin'' None True
             = (fst (before_loop plain_config quiet_world fresh_state ''http://a.example/f.bin''
                       None True),
                Inr (''out/f.bin'', ''out/f.bin.part'',
                  \<lparr>downloaded_bytes = 0, retry_count = 0, file_mode = Truncate,
                   file_size = 1048576\<rparr>))"
    using quiet_entry by (simp add: prod_eq_iff)
  have z: "failed fresh_state = 0" "trace fresh_state = []"
    by (simp_all add: fresh_state_def init_state_def)
  from download_file_retry_bound [OF e f] m z f show ?thesis
    by (auto simp: numeral_3_eq_3)
qed


subsection \<open>Waiting before a retry\<close>

lemma attempt_again:
  assumes "attempt cfg w u fp tp up st ls = (st', Again ls')"
  shows "\<exists>e st1 ls1. stream_attempt cfg w u tp up st ls = (Some e, st1, ls1)
           \<and> handle cfg w u fp up e st1 ls1 = (st', Again ls')"
proof -
  obtain r st1 ls1 where sa: "stream_attempt cfg w u tp up st ls = (r, st1, ls1)"
    by (cases "stream_attempt cfg w u tp up st ls")
  show ?thesis
  proof (cases r)
    case None
    with assms sa show ?thesis
      by (simp add: attempt_def split: prod.splits)
  next
    case (Some e)
    with assms sa attempt_raised [of cfg w u tp up st ls e st1 ls1 fp] show ?thesis
      by simp
  qed
qed

text \<open>
  What the code keeps of the retry step. When a pass of the retry loop ends in a
  retry, it is retry number \<open>k = retry_count + 1\<close> (at least 1), the last thing the
  pass did after its GET was to sleep \<open>2 ^ k + r\<close> seconds, where \<open>r\<close> is
  \<open>random.uniform(0, 2)\<close> and lies between 0 and 2 when the generator's
  \<open>random()\<close> lies between 0 and 1, and the loop goes on with the counter
  \<open>downloaded_bytes\<close> equal to its value before the pass plus the bytes this pass
  wrote. This is a statement about the counter only; what the next request asks for
  is the subject of the next two subsections.
\<close>

lemma retry_backoff:
  assumes again: "attempt cfg w u fp tp up st ls = (st', Again ls')"
    and started: "0 \<le> retry_count ls"
    and unit: "\<forall>n. 0 \<le> w_random w n \<and> w_random w n \<le> 1"
  shows "\<exists>k r h. k = retry_count ls + 1 \<and> retry_count ls' = k \<and> 1 \<le> k
           \<and> 0 \<le> r \<and> r \<le> 2
           \<and> trace st' = trace st @ [EvGet Transfer u h, EvSleep (2 ^ nat k + r)]
           \<and> downloaded_bytes ls' = downloaded_bytes ls + (total_bytes st' - total_bytes st)
           \<and> downloaded_bytes ls \<le> downloaded_bytes ls'
           \<and> download_loop cfg w u fp tp up st ls = download_loop cfg w u fp tp up st' ls'"
proof -
  obtain e st1 ls1 where sa: "stream_attempt cfg w u tp up st ls = (Some e, st1, ls1)"
    and h: "handle cfg w u fp up e st1 ls1 = (st', Again ls')"
    using attempt_again [OF again] by blast
  note fr = stream_attempt_frame [OF sa]
  have le: "retry_count ls1 + 1 \<le> max_retries cfg"
  proof (rule ccontr)
    assume "\<not> retry_count ls1 + 1 \<le> max_retries cfg"
    then have "max_retries cfg < retry_count ls1 + 1" by simp
    from handle_gives_up(1) [OF h this] show False by simp
  qed
  note b = handle_backs_off [OF h le]
  obtain n where tr: "trace st' = trace st1 @ [EvSleep (2 ^ nat (retry_count ls1 + 1) + 2 * w_random w n)]"
    using b(5) by blast
  define r where "r = 2 * w_random w n"
  have r: "0 \<le> r" "r \<le> 2"
    using unit by (simp_all add: r_def)
  have ls': "ls' = ls1\<lparr>retry_count := retry_count ls1 + 1\<rparr>"
    using b(1) by simp
  have "retry_count ls \<le> max_retries cfg"
    using le fr(7) by simp
  then have "download_loop cfg w u fp tp up st ls = download_loop cfg w u fp tp up st' ls'"
    using again by (simp add: download_loop.simps [of cfg w u fp tp up st ls])
  moreover have "trace st' = trace st @ [EvGet Transfer u (request_headers cfg w st u),
                   EvSleep (2 ^ nat (retry_count ls + 1) + r)]"
    using tr fr(1) fr(7) by (simp add: r_def)
  moreover have "retry_count ls' = retry_count ls + 1"
    using ls' fr(7) by simp
  moreover have "downloaded_bytes ls' = downloaded_bytes ls + (total_bytes st' - total_bytes st)"
    "downloaded_bytes ls \<le> downloaded_bytes ls'"
    using ls' fr(8) fr(9) b(4) by simp_all
  ultimately show ?thesis
    using r started by auto
qed

lemmas attempt_defs =
  attempt_def stream_attempt_def on_request_error_def on_other_error_def give_up_def
  backoff_def penalize_def learn_file_size_def fs_open_def write_chunks.simps write_chunk_def
  fs_write_def update_progress_bar_def close_progress_bar_def enhance_headers_def
  set_default_def time_now_def random_uniform_def sleep_def get_resume_header_def Let_def

lemma quiet_attempt:
  "snd (attempt plain_config quiet_world ''http://a.example/f.bin'' ''out/f.bin''
          ''out/f.bin.part'' True fresh_state first_loop_state)
     = Again (first_loop_state\<lparr>retry_count := 1\<rparr>)"
  by (simp add: attempt_defs first_loop_state_def quiet_world_def plain_config_def
        fresh_state_def init_state_def test_urlparse_def)

lemma retry_backoff_witness:
  "snd (attempt plain_config quiet_world ''http://a.example/f.bin'' ''out/f.bin''
          ''out/f.bin.part'' True fresh_state first_loop_state)
     = Again (first_loop_state\<lparr>retry_count := 1\<rparr>)
   \<and> retry_count first_loop_state = 0
   \<and> (\<forall>n. 0 \<le> w_random quiet_world n \<and> w_random quiet_world n \<le> 1)
   \<and> (\<exists>r h. 0 \<le> r \<and> r \<le> 2
          \<and> trace (fst (attempt plain_config quiet_world ''http://a.example/f.bin''
                 ''out/f.bin'' ''out/f.bin.part'' True fresh_state first_loop_state))
              = [EvGet Transfer ''http://a.example/f.bin'' h, EvSleep (2 ^ 1 + r)])"
proof -
  have a: "attempt plain_config quiet_world ''http://a.example/f.bin'' ''out/f.bin''
             ''out/f.bin.part'' True fresh_state first_loop_state
           = (fst (attempt plain_config quiet_world ''http://a.example/f.bin'' ''out/f.bin''
                ''out/f.bin.part'' True fresh_state first_loop_state),
              Again (first_loop_state\<lparr>retry_count := 1\<rparr>))"
    using quiet_attempt by (simp add: prod_eq_iff)
  have z: "retry_count first_loop_state = 0" "trace fresh_state = []"
    by (simp_all add: first_loop_state_def fresh_state_def init_state_def)
  have u: "\<forall>n. 0 \<le> w_random quiet_world n \<and> w_random quiet_world n \<le> 1"
    by (simp add: quiet_world_def)
  from retry_backoff [OF a _ u] z quiet_attempt u show ?thesis
    by auto
qed

subsection \<open>The request of a resumed download\<close>

lemma set_default_other: "k' \<noteq> k \<Longrightarrow> set_default h k v k' = h k'"
  by (simp add: set_default_def split: option.splits)

lemma enhance_headers_range:
  assumes "enhance_headers cfg w st u = Some (h, st')"
  shows "h ''Range'' = headers cfg ''Range''"
proof -
  define h1 where "h1 = (case headers cfg ''User-Agent'' of
      None \<Rightarrow> (headers cfg)(''User-Agent'' \<mapsto> user_agents ! (w_randbelow w (tick st) 4 mod 4))
    | Some ua \<Rightarrow> headers cfg)"
  define h4 where "h4 = set_default (set_default (set_default h1 ''Accept'' ''*/*'')
      ''Accept-Language'' ''en-US,en;q=0.9'') ''Accept-Encoding'' ''gzip, deflate, br''"
  have r1: "h1 ''Range'' = headers cfg ''Range''"
    by (simp add: h1_def split: option.splits)
  have r4: "h4 ''Range'' = headers cfg ''Range''"
    by (simp add: h4_def set_default_other r1)
  have "h = h4 \<or> (\<exists>v. h = h4(''Referer'' \<mapsto> v))"
    using assms unfolding h4_def h1_def
    by (auto simp: enhance_headers_def Let_def split: option.splits prod.splits)
  with r4 show ?thesis by auto
qed

text \<open>
  Whatever \<open>_get_resume_header\<close> computed, the request of an attempt carries the
  \<open>Range\<close> header of the configured headers and no other.
\<close>

lemma request_headers_range: "request_headers cfg w st u ''Range'' = headers cfg ''Range''"
  by (auto simp: request_headers_def split: option.splits dest: enhance_headers_range)

lemma stream_attempt_range:
  assumes "stream_attempt cfg w u tp up st ls = (e, st', ls')"
  shows "transfer_ranges (trace st') = transfer_ranges (trace st) @ [headers cfg ''Range'']"
proof -
  have app: "transfer_ranges (xs @ [EvGet Transfer u h]) = transfer_ranges xs @ [h ''Range'']"
    for xs h
    by (induction xs rule: transfer_ranges.induct) simp_all
  show ?thesis
    using stream_attempt_frame(1) [OF assms] by (simp add: app request_headers_range)
qed

lemma show_nat_2: "show_nat (Suc (Suc 0)) = ''2''"
  by (simp add: show_nat.simps)

lemmas finish_defs =
  finish_download_def move_into_place_def fs_rename_def fs_copy_def fs_remove_def
  record_success_def save_state_def

text \<open>
  C1, at a concrete input. With \<open>resume\<close> on, no configured \<open>Range\<close> header, and
  a partial file holding the first two of the six bytes of the resource,
  \<open>_get_resume_header\<close> computes \<open>Range: bytes=2-\<close>, but the one GET that
  \<open>download_file\<close> sends carries no \<open>Range\<close> header. The server therefore
  sends all six bytes, they are appended to the two on disk, and the final file holds
  eight bytes, not the six of an uninterrupted download; six bytes were transferred,
  not four.
\<close>

theorem resumed_request_has_no_range:
  "get_resume_header plain_config state_with_part ''http://a.example/f.bin'' ''out/f.bin.part''
     ''Range'' = Some ''bytes=2-''
   \<and> (case download_file plain_config range_world state_with_part ''http://a.example/f.bin''
              None True of
         (st', r) \<Rightarrow>
           r = Some (True, ''out/f.bin'', 8)
           \<and> transfer_ranges (trace st') = [None]
           \<and> files st' ''out/f.bin'' = Some [1, 2, 1, 2, 3, 4, 5, 6]
           \<and> files st' ''out/f.bin.part'' = None
           \<and> total_bytes st' = 6)"
proof -
  have "get_resume_header plain_config state_with_part ''http://a.example/f.bin''
          ''out/f.bin.part'' ''Range'' = Some ''bytes=2-''"
    by (simp add: get_resume_header_def plain_config_def state_with_part_def show_nat_2)
  moreover have
    "(case download_file plain_config range_world state_with_part ''http://a.example/f.bin''
              None True of
         (st', r) \<Rightarrow>
           r = Some (True, ''out/f.bin'', 8)
           \<and> transfer_ranges (trace st') = [None]
           \<and> files st' ''out/f.bin'' = Some [1, 2, 1, 2, 3, 4, 5, 6]
           \<and> files st' ''out/f.bin.part'' = None
           \<and> total_bytes st' = 6)"
    by (simp add: download_file_def download_loop.simps run_defs attempt_defs finish_defs
          range_world_def range_server_def state_with_part_def user_agents_def
          cong: let_weak_cong prod.case_cong_weak)
  ultimately show ?thesis by blast
qed

subsection \<open>The request of a retry\<close>

text \<open>
  C10, at a concrete input. The server announces 500 bytes, delivers the three bytes
  1, 2, 3 and breaks the connection, every time. With \<open>max_retries = 2\<close> the job
  makes three passes. Each pass keeps the counter (3, 6, 9 bytes), but none of the
  three GETs carries a \<open>Range\<close> header, although \<open>_get_resume_header\<close> asks
  for the bytes from the third on once three bytes are on disk: each response starts at
  byte 0 again and is appended to the partial file, which ends as 1, 2, 3, 1, 2, 3,
  1, 2, 3. The retries restart the body; they do not resume it.
\<close>

theorem retry_restarts_body:
  "get_resume_header plain_config state_done ''http://a.example/f.bin'' ''out/f.bin.part''
     ''Range'' = Some ''bytes=3-''
   \<and> (case download_file plain_config small_file_world fresh_state ''http://a.example/f.bin''
              None True of
         (st', r) \<Rightarrow>
           r = Some (False, ''out/f.bin'', 9)
           \<and> transfer_ranges (trace st') = [None, None, None]
           \<and> files st' ''out/f.bin.part'' = Some [1, 2, 3, 1, 2, 3, 1, 2, 3]
           \<and> files st' ''out/f.bin'' = None)"
proof -
  have "show_nat (Suc (Suc (Suc 0))) = ''3''"
    by (simp add: show_nat.simps)
  then have "get_resume_header plain_config state_done ''http://a.example/f.bin''
          ''out/f.bin.part'' ''Range'' = Some ''bytes=3-''"
    by (simp add: get_resume_header_def plain_config_def state_done_def)
  moreover have
    "(case download_file plain_config small_file_world fresh_state ''http://a.example/f.bin''
              None True of
         (st', r) \<Rightarrow>
           r = Some (False, ''out/f.bin'', 9)
           \<and> transfer_ranges (trace st') = [None, None, None]
           \<and> files st' ''out/f.bin.part'' = Some [1, 2, 3, 1, 2, 3, 1, 2, 3]
           \<and> files st' ''out/f.bin'' = None)"
    by (simp add: download_file_def download_loop.simps run_defs attempt_defs finish_defs
          small_file_world_def user_agents_def
          cong: let_weak_cong prod.case_cong_weak)
  ultimately show ?thesis by blast
qed

subsection \<open>When the rename fails\<close>

lemma record_success_frame:
  "successful (record_success cfg w u up st) = successful st + 1"
  "failed (record_success cfg w u up st) = failed st"
  "completed_urls (record_success cfg w u up st) = insert u (completed_urls st)"
  "files (record_success cfg w u up st) = files st"
  by (simp_all add: record_success_def save_state_def time_now_def close_progress_bar_def Let_def
        split: option.splits)

lemma fs_frame:
  "fs_rename w a b st = (ok, st') \<Longrightarrow> steady st st'"
  "fs_copy w a b st = (ok, st') \<Longrightarrow> steady st st'"
  "fs_remove w a st = (ok, st') \<Longrightarrow> steady st st'"
  by (auto simp: fs_rename_def fs_copy_def fs_remove_def steady_def Let_def
           split: option.splits if_splits)

lemma finish_download_fallback:
  assumes rn: "fs_rename w tp fp st = (False, st1)"
    and tp: "tp = part_path fp"
  shows "\<exists>st' p. finish_download cfg w u fp tp up st ls = (st', (True, p, downloaded_bytes ls))
           \<and> failed st' = failed st
           \<and> (if fst (fs_copy w tp fp st1) \<and> fst (fs_remove w tp (snd (fs_copy w tp fp st1)))
               then p = fp \<and> successful st' = successful st + 1 \<and> u \<in> completed_urls st'
                    \<and> files st' fp = files st tp \<and> files st' tp = None
               else p = tp)"
proof -
  obtain copied st2 where cp: "fs_copy w tp fp st1 = (copied, st2)"
    by (cases "fs_copy w tp fp st1")
  obtain removed st3 where rm: "fs_remove w tp st2 = (removed, st3)"
    by (cases "fs_remove w tp st2")
  note s1 = fs_frame(1) [OF rn]
  note s2 = fs_frame(2) [OF cp]
  note s3 = fs_frame(3) [OF rm]
  show ?thesis
  proof (cases "copied \<and> removed")
    case True
    then have fd: "finish_download cfg w u fp tp up st ls
                     = (record_success cfg w u up st3, (True, fp, downloaded_bytes ls))"
      using rn cp rm by (simp add: finish_download_def move_into_place_def)
    have f1: "files st1 = files st"
      using rn by (auto simp: fs_rename_def Let_def split: option.splits if_splits)
    obtain content where c: "files st1 tp = Some content" "files st2 = (files st1)(fp \<mapsto> content)"
      using cp True by (auto simp: fs_copy_def Let_def split: option.splits if_splits)
    have f3: "files st3 = (files st2)(tp := None)"
      using rm True by (auto simp: fs_remove_def Let_def split: option.splits if_splits)
    have ne: "tp \<noteq> fp"
      by (simp add: tp part_path_def)
    have "files st3 fp = files st tp" "files st3 tp = None"
      using c f1 f3 ne by simp_all
    then show ?thesis
      using fd True cp rm s1 s2 s3
      by (simp add: record_success_frame steady_def)
  next
    case False
    then have "finish_download cfg w u fp tp up st ls = (if copied then st3 else st2, (True, tp, downloaded_bytes ls))"
      using rn cp rm by (auto simp: finish_download_def move_into_place_def)
    then show ?thesis
      using False cp rm s1 s2 s3 by (auto simp: steady_def)
  qed
qed

lemma attempt_completed:
  "stream_attempt cfg w u tp up st ls = (None, st1, ls1)
     \<Longrightarrow> attempt cfg w u fp tp up st ls
           = (fst (finish_download cfg w u fp tp up st1 ls1),
              Done (snd (finish_download cfg w u fp tp up st1 ls1)))"
  by (simp add: attempt_def split: prod.splits)

lemma resume_check_rename_fails:
  assumes r: "resume cfg" and f: "files st tp = Some content"
    and z: "file_size ls \<noteq> 0" and c: "file_size ls \<le> int (length content)"
    and rn: "fs_rename w tp fp
               (if up \<and> use_tqdm cfg
                then update_progress_bar cfg st u (int (length content)) None else st)
             = (False, st2)"
  shows "resume_check cfg w u fp tp up st ls
           = (st2, Again (ls\<lparr>downloaded_bytes := 0, file_mode := Truncate\<rparr>))"
    and "files st2 = files st" and "failed st2 = failed st" and "successful st2 = successful st"
proof -
  show "resume_check cfg w u fp tp up st ls
           = (st2, Again (ls\<lparr>downloaded_bytes := 0, file_mode := Truncate\<rparr>))"
    using r f z c rn by (simp add: resume_check_def Let_def)
  define st1 where "st1 = (if up \<and> use_tqdm cfg
                then update_progress_bar cfg st u (int (length content)) None else st)"
  have a: "files st1 = files st" "failed st1 = failed st" "successful st1 = successful st"
    by (simp_all add: st1_def update_progress_bar_def Let_def split: option.splits prod.splits)
  have b: "files st2 = files st1" "failed st2 = failed st1" "successful st2 = successful st1"
    using rn unfolding st1_def [symmetric]
    by (auto simp: fs_rename_def Let_def split: option.splits if_splits)
  show "files st2 = files st" and "failed st2 = failed st" and "successful st2 = successful st"
    using a b by simp_all
qed

text \<open>
  C3, as the code has it. When the streaming of an attempt has ended without an
  exception and the rename of the partial file to the final path raises, the partial
  file is copied to the final path and deleted. If that works the job is a success
  at the final path, counted in \<open>successful\<close> and added to the completed URLs. If
  the copy or the deletion raises as well, the job is still returned as a success,
  now with the path of the partial file, and \<open>failed\<close> is not raised: the job is not
  recorded as a failure. The other rename of \<open>download_file\<close>, that of a partial
  file found already complete before anything is streamed (lines 610 to 628), has no
  fallback: when it raises, nothing is copied, no counter moves, and the retry loop
  is entered with zero bytes downloaded and the file to be opened in mode \<open>"wb"\<close>.
\<close>

theorem rename_failure_falls_back:
  "(\<forall>st1 ls1 st2.
      stream_attempt cfg w u (part_path fp) up st ls = (None, st1, ls1)
      \<longrightarrow> fs_rename w (part_path fp) fp st1 = (False, st2)
      \<longrightarrow> (\<exists>st' p. attempt cfg w u fp (part_path fp) up st ls
                        = (st', Done (True, p, downloaded_bytes ls1))
             \<and> failed st' = failed st
             \<and> (if fst (fs_copy w (part_path fp) fp st2)
                    \<and> fst (fs_remove w (part_path fp) (snd (fs_copy w (part_path fp) fp st2)))
                 then p = fp \<and> successful st' = successful st + 1 \<and> u \<in> completed_urls st'
                      \<and> files st' fp = files st1 (part_path fp)
                      \<and> files st' (part_path fp) = None
                 else p = part_path fp)))
   \<and> (\<forall>content st2.
        resume cfg \<longrightarrow> files st (part_path fp) = Some content
        \<longrightarrow> file_size ls \<noteq> 0 \<longrightarrow> file_size ls \<le> int (length content)
        \<longrightarrow> fs_rename w (part_path fp) fp
              (if up \<and> use_tqdm cfg
               then update_progress_bar cfg st u (int (length content)) None else st)
            = (False, st2)
        \<longrightarrow> resume_check cfg w u fp (part_path fp) up st ls
              = (st2, Again (ls\<lparr>downloaded_bytes := 0, file_mode := Truncate\<rparr>))
            \<and> files st2 = files st \<and> failed st2 = failed st \<and> successful st2 = successful st)"
proof (intro conjI allI impI)
  fix st1 ls1 st2
  assume sa: "stream_attempt cfg w u (part_path fp) up st ls = (None, st1, ls1)"
    and rn: "fs_rename w (part_path fp) fp st1 = (False, st2)"
  note fr = stream_attempt_frame [OF sa]
  from finish_download_fallback [OF rn refl, of cfg u up ls1]
  obtain st' p where fd: "finish_download cfg w u fp (part_path fp) up st1 ls1
                            = (st', (True, p, downloaded_bytes ls1))"
    and rest: "failed st' = failed st1"
      "if fst (fs_copy w (part_path fp) fp st2)
          \<and> fst (fs_remove w (part_path fp) (snd (fs_copy w (part_path fp) fp st2)))
       then p = fp \<and> successful st' = successful st1 + 1 \<and> u \<in> completed_urls st'
            \<and> files st' fp = files st1 (part_path fp) \<and> files st' (part_path fp) = None
       else p = part_path fp"
    by blast
  have "attempt cfg w u fp (part_path fp) up st ls = (st', Done (True, p, downloaded_bytes ls1))"
    using attempt_completed [OF sa, of fp] fd by simp
  with rest fr(2) fr(3)
  show "\<exists>st' p. attempt cfg w u fp (part_path fp) up st ls
                        = (st', Done (True, p, downloaded_bytes ls1))
             \<and> failed st' = failed st
             \<and> (if fst (fs_copy w (part_path fp) fp st2)
                    \<and> fst (fs_remove w (part_path fp) (snd (fs_copy w (part_path fp) fp st2)))
                 then p = fp \<and> successful st' = successful st + 1 \<and> u \<in> completed_urls st'
                      \<and> files st' fp = files st1 (part_path fp)
                      \<and> files st' (part_path fp) = None
                 else p = part_path fp)"
    by (cases "fst (fs_copy w (part_path fp) fp st2)
                 \<and> fst (fs_remove w (part_path fp) (snd (fs_copy w (part_path fp) fp st2)))")
       auto
next
  fix content st2
  assume a: "resume cfg" "files st (part_path fp) = Some content" "file_size ls \<noteq> 0"
    "file_size ls \<le> int (length content)"
    "fs_rename w (part_path fp) fp
       (if up \<and> use_tqdm cfg
        then update_progress_bar cfg st u (int (length content)) None else st)
     = (False, st2)"
  note r = resume_check_rename_fails [OF a]
  show "resume_check cfg w u fp (part_path fp) up st ls
          = (st2, Again (ls\<lparr>downloaded_bytes := 0, file_mode := Truncate\<rparr>))"
    and "files st2 = files st" and "failed st2 = failed st" and "successful st2 = successful st"
    using r by simp_all
qed


theorem rename_failure_falls_back_witness:
  "fst (stream_attempt plain_config stuck_world ''http://a.example/f.bin''
          (part_path ''out/f.bin'') True fresh_state first_loop_state) = None
   \<and> \<not> fst (fs_rename stuck_world (part_path ''out/f.bin'') ''out/f.bin''
              (fst (snd (stream_attempt plain_config stuck_world ''http://a.example/f.bin''
                 (part_path ''out/f.bin'') True fresh_state first_loop_state))))
   \<and> (\<exists>st' n. attempt plain_config stuck_world ''http://a.example/f.bin'' ''out/f.bin''
                  (part_path ''out/f.bin'') True fresh_state first_loop_state
                = (st', Done (True, part_path ''out/f.bin'', n))
          \<and> failed st' = 0)
   \<and> resume plain_config
   \<and> files state_done (part_path ''out/f.bin'') = Some [1, 2, 3]
   \<and> (\<exists>st2. resume_check plain_config stuck_world ''http://a.example/f.bin'' ''out/f.bin''
                (part_path ''out/f.bin'') True state_done (first_loop_state\<lparr>file_size := 3\<rparr>)
              = (st2, Again (first_loop_state\<lparr>file_size := 3, downloaded_bytes := 0,
                                file_mode := Truncate\<rparr>))
          \<and> files st2 = files state_done)"
proof -
  define sa where "sa = stream_attempt plain_config stuck_world ''http://a.example/f.bin''
          (part_path ''out/f.bin'') True fresh_state first_loop_state"
  have e: "fst sa = None"
    unfolding sa_def
    by (simp add: attempt_defs part_path_def stuck_world_def quiet_world_def plain_config_def
          fresh_state_def init_state_def first_loop_state_def test_urlparse_def user_agents_def
          cong: let_weak_cong prod.case_cong_weak)
  have h1: "stream_attempt plain_config stuck_world ''http://a.example/f.bin''
          (part_path ''out/f.bin'') True fresh_state first_loop_state
          = (None, fst (snd sa), snd (snd sa))"
    using e by (simp add: sa_def prod_eq_iff)
  define rn where "rn = fs_rename stuck_world (part_path ''out/f.bin'') ''out/f.bin'' (fst (snd sa))"
  have nr: "\<not> fst rn"
    by (simp add: rn_def fs_rename_def stuck_world_def Let_def split: option.splits)
  have h2: "fs_rename stuck_world (part_path ''out/f.bin'') ''out/f.bin'' (fst (snd sa))
              = (False, snd rn)"
    using nr by (simp add: rn_def prod_eq_iff)
  have nc: "\<not> fst (fs_copy stuck_world (part_path ''out/f.bin'') ''out/f.bin'' (snd rn))"
    by (simp add: fs_copy_def stuck_world_def Let_def split: option.splits)
  have z: "failed fresh_state = 0"
    by (simp add: fresh_state_def init_state_def)
  have r: "resume plain_config"
    by (simp add: plain_config_def)
  have f: "files state_done (part_path ''out/f.bin'') = Some [1, 2, 3]"
    by (simp add: state_done_def part_path_def)
  define bar where "bar = (if True \<and> use_tqdm plain_config
               then update_progress_bar plain_config state_done ''http://a.example/f.bin''
                      (int (length [1::nat, 2, 3])) None
               else state_done)"
  define rn2 where "rn2 = fs_rename stuck_world (part_path ''out/f.bin'') ''out/f.bin'' bar"
  have nr2: "\<not> fst rn2"
    by (simp add: rn2_def fs_rename_def stuck_world_def Let_def split: option.splits)
  have h3: "fs_rename stuck_world (part_path ''out/f.bin'') ''out/f.bin''
              (if True \<and> use_tqdm plain_config
               then update_progress_bar plain_config state_done ''http://a.example/f.bin''
                      (int (length [1::nat, 2, 3])) None
               else state_done)
            = (False, snd rn2)"
    using nr2 by (simp add: rn2_def bar_def prod_eq_iff)
  have s: "file_size (first_loop_state\<lparr>file_size := 3\<rparr>) \<noteq> 0"
    "file_size (first_loop_state\<lparr>file_size := 3\<rparr>) \<le> int (length [1::nat, 2, 3])"
    by simp_all
  note t = rename_failure_falls_back [of plain_config stuck_world "''http://a.example/f.bin''"
             "''out/f.bin''" True]
  from t [of fresh_state first_loop_state, THEN conjunct1, rule_format, OF h1 h2] nc z
  have A: "\<exists>st' n. attempt plain_config stuck_world ''http://a.example/f.bin'' ''out/f.bin''
                  (part_path ''out/f.bin'') True fresh_state first_loop_state
                = (st', Done (True, part_path ''out/f.bin'', n))
          \<and> failed st' = 0"
    by auto
  from t [of state_done "first_loop_state\<lparr>file_size := 3\<rparr>", THEN conjunct2, rule_format,
          OF r f s h3]
  have B: "\<exists>st2. resume_check plain_config stuck_world ''http://a.example/f.bin'' ''out/f.bin''
                (part_path ''out/f.bin'') True state_done (first_loop_state\<lparr>file_size := 3\<rparr>)
              = (st2, Again (first_loop_state\<lparr>file_size := 3, downloaded_bytes := 0,
                                file_mode := Truncate\<rparr>))
          \<and> files st2 = files state_done"
    by auto
  from e nr A r f B show ?thesis
    unfolding sa_def rn_def by blast
qed

text \<open>
  C3 as stated fails: here the download completes, the rename and the fallback copy
  both fail, and \<open>download_file\<close> returns success with the partial file's path;
  \<open>failed\<close> stays 0.
\<close>

theorem failed_fallback_is_success:
  "(\<forall>n. w_rename_fails stuck_world n) \<and> (\<forall>n. w_copy_fails stuck_world n)
   \<and> (case download_file plain_config stuck_world fresh_state ''http://a.example/f.bin'' None True of
         (st', r) \<Rightarrow>
           r = Some (True, ''out/f.bin.part'', 3)
           \<and> failed st' = 0 \<and> successful st' = 0
           \<and> files st' ''out/f.bin'' = None
           \<and> files st' ''out/f.bin.part'' = Some [1, 2, 3])"
proof -
  have "(case download_file plain_config stuck_world fresh_state ''http://a.example/f.bin'' None True of
         (st', r) \<Rightarrow>
           r = Some (True, ''out/f.bin.part'', 3)
           \<and> failed st' = 0 \<and> successful st' = 0
           \<and> files st' ''out/f.bin'' = None
           \<and> files st' ''out/f.bin.part'' = Some [1, 2, 3])"
    by (simp add: download_file_def download_loop.simps run_defs attempt_defs finish_defs
          stuck_world_def user_agents_def
          cong: let_weak_cong prod.case_cong_weak)
  then show ?thesis
    by (simp add: stuck_world_def)
qed


subsection \<open>The size of the file\<close>

lemma bars_grow_refl [simp]: "bars_grow st st"
  by (simp add: bars_grow_def)

































subsection \<open>The map a batch returns\<close>

lemmas batch_defs =
  download_batch_def batch_outcomes_def batch_plan_def keep_names_def make_jobs_def
  reset_stats_def limited_download_def collect_def save_state_def cleanup_progress_bars_def

lemma run_tasks_urls: "map fst (snd (run_tasks cfg w jobs st)) = map fst jobs"
proof (induction jobs arbitrary: st)
  case Nil
  show ?case by simp
next
  case (Cons j jobs)
  obtain u file_name where j: "j = (u, file_name)" by (cases j)
  obtain st1 oc where l: "limited_download cfg w st u file_name = (st1, oc)"
    by (cases "limited_download cfg w st u file_name")
  have f: "fst oc = u"
    using l by (auto simp: limited_download_def Let_def split: prod.splits option.splits)
  obtain st2 ocs where r: "run_tasks cfg w jobs st1 = (st2, ocs)"
    by (cases "run_tasks cfg w jobs st1")
  from Cons.IH [of st1] r have "map fst ocs = map fst jobs" by simp
  with j l r f show ?case by simp
qed

lemma collect_results:
  assumes "collect w t (u, success, file_path, n) (st, res, k) = (st', res', k')"
  shows "res' = (if success then res(u \<mapsto> file_path) else res)"
  using assms by (simp add: collect_def Let_def)

lemma collect_all_results:
  "collect_all w t ocs (st, res, k) = (st', res', k')
     \<Longrightarrow> (\<forall>u p. res' u = Some p
            \<longrightarrow> res u = Some p \<or> (\<exists>n. (u, True, p, n) \<in> set ocs))
         \<and> dom res' = dom res \<union> {u. \<exists>p n. (u, True, p, n) \<in> set ocs}"
proof (induction ocs arbitrary: st res k)
  case Nil
  then show ?case by simp
next
  case (Cons oc ocs)
  obtain u success file_path n where oc: "oc = (u, success, file_path, n)"
    by (cases oc)
  obtain st1 res1 k1 where c: "collect w t oc (st, res, k) = (st1, res1, k1)"
    by (cases "collect w t oc (st, res, k)")
  have r1: "res1 = (if success then res(u \<mapsto> file_path) else res)"
    using c oc collect_results by blast
  from Cons.prems c have "collect_all w t ocs (st1, res1, k1) = (st', res', k')"
    by simp
  from Cons.IH [OF this]
  have ih1: "\<forall>v p. res' v = Some p
               \<longrightarrow> res1 v = Some p \<or> (\<exists>n. (v, True, p, n) \<in> set ocs)"
    and ih2: "dom res' = dom res1 \<union> {v. \<exists>p n. (v, True, p, n) \<in> set ocs}"
    by simp_all
  have a: "\<forall>v p. res' v = Some p
               \<longrightarrow> res v = Some p \<or> (\<exists>n. (v, True, p, n) \<in> set (oc # ocs))"
  proof (intro allI impI)
    fix v p
    assume "res' v = Some p"
    with ih1 have "res1 v = Some p \<or> (\<exists>n. (v, True, p, n) \<in> set ocs)" by blast
    then show "res v = Some p \<or> (\<exists>n. (v, True, p, n) \<in> set (oc # ocs))"
    proof
      assume "res1 v = Some p"
      then show ?thesis
        unfolding r1 oc by (cases success; cases "v = u") auto
    next
      assume "\<exists>n. (v, True, p, n) \<in> set ocs"
      then show ?thesis by auto
    qed
  qed
  have d1: "dom res1 = dom res \<union> {v. \<exists>p n. (v, True, p, n) \<in> set [oc]}"
    unfolding r1 oc by (cases success) auto
  have b: "dom res' = dom res \<union> {v. \<exists>p n. (v, True, p, n) \<in> set (oc # ocs)}"
    unfolding ih2 d1 by auto
  from a b show ?case by blast
qed

text \<open>
  C2, as the code has it. The map \<open>download_batch\<close> returns has an entry exactly for
  the URLs of which some task of the batch ended in success (a download or a skip), and
  an entry maps the URL to the path such a task returned. Every task of the batch has
  one outcome, in the order of the jobs; only the successful ones reach the map.
\<close>

theorem batch_results_are_successes:
  "dom (snd (download_batch cfg w st urls filenames))
     = {u. \<exists>p n. (u, True, p, n) \<in> set (batch_outcomes cfg w st urls filenames)}
   \<and> (\<forall>u p. snd (download_batch cfg w st urls filenames) u = Some p
          \<longrightarrow> (\<exists>n. (u, True, p, n) \<in> set (batch_outcomes cfg w st urls filenames)))
   \<and> map fst (batch_outcomes cfg w st urls filenames)
       = (case batch_plan cfg w st urls filenames of None \<Rightarrow> [] | Some jobs \<Rightarrow> map fst jobs)"
proof (cases "batch_plan cfg w st urls filenames")
  case None
  then show ?thesis
    by (simp add: download_batch_def batch_outcomes_def)
next
  case (Some jobs)
  obtain st1 ocs where r: "run_tasks cfg w jobs (reset_stats cfg st) = (st1, ocs)"
    by (cases "run_tasks cfg w jobs (reset_stats cfg st)")
  obtain st2 res k where c: "collect_all w (length jobs) ocs (st1, Map.empty, 0) = (st2, res, k)"
    by (cases "collect_all w (length jobs) ocs (st1, Map.empty, 0)")
  have o: "batch_outcomes cfg w st urls filenames = ocs"
    using Some r by (simp add: batch_outcomes_def)
  have d: "snd (download_batch cfg w st urls filenames) = res"
    using Some r c by (simp add: download_batch_def Let_def)
  from collect_all_results [OF c]
  have a: "\<forall>u p. res u = Some p \<longrightarrow> (\<exists>n. (u, True, p, n) \<in> set ocs)"
    and b: "dom res = {u. \<exists>p n. (u, True, p, n) \<in> set ocs}"
    by simp_all
  have m: "map fst ocs = map fst jobs"
    using run_tasks_urls [of cfg w jobs "reset_stats cfg st"] r by simp
  from a b m show ?thesis
    unfolding o d using Some by simp
qed

text \<open>
  C2 as stated fails: a batch of one URL whose every request is refused returns a map
  without that URL; the failure shows in the counter \<open>failed\<close> and nowhere in the
  map.
\<close>

theorem failed_job_has_no_entry:
  "(case download_batch plain_config quiet_world fresh_state [''http://a.example/f.bin''] [] of
      (st', results) \<Rightarrow>
        results ''http://a.example/f.bin'' = None \<and> failed st' = 1 \<and> successful st' = 0)
   \<and> batch_outcomes plain_config quiet_world fresh_state [''http://a.example/f.bin''] []
       = [(''http://a.example/f.bin'', False, ''out/f.bin'', 0)]"
proof -
  have "(case download_batch plain_config quiet_world fresh_state [''http://a.example/f.bin''] [] of
      (st', results) \<Rightarrow>
        results ''http://a.example/f.bin'' = None \<and> failed st' = 1 \<and> successful st' = 0)"
    by (simp add: batch_defs download_file_def download_loop.simps run_defs attempt_defs
          fetch_content_type_def user_agents_def cong: let_weak_cong prod.case_cong_weak)
  moreover have "batch_outcomes plain_config quiet_world fresh_state [''http://a.example/f.bin''] []
       = [(''http://a.example/f.bin'', False, ''out/f.bin'', 0)]"
    by (simp add: batch_defs download_file_def download_loop.simps run_defs attempt_defs
          fetch_content_type_def user_agents_def cong: let_weak_cong prod.case_cong_weak)
  ultimately show ?thesis by blast
qed

lemma skipped_batch:
  "snd (download_batch plain_config quiet_world state_with_file [''http://a.example/f.bin''] [])
     ''http://a.example/f.bin'' = Some ''out/f.bin''"
  by (simp add: batch_defs download_file_def run_defs state_with_file_def fetch_content_type_def
        user_agents_def cong: let_weak_cong prod.case_cong_weak)

theorem batch_results_are_successes_witness:
  "snd (download_batch plain_config quiet_world state_with_file [''http://a.example/f.bin''] [])
     ''http://a.example/f.bin'' = Some ''out/f.bin''
   \<and> (\<exists>n. (''http://a.example/f.bin'', True, ''out/f.bin'', n)
            \<in> set (batch_outcomes plain_config quiet_world state_with_file
                      [''http://a.example/f.bin''] []))"
  using batch_results_are_successes
          [of plain_config quiet_world state_with_file "[''http://a.example/f.bin'']" "[]"]
        skipped_batch
  by blast


subsection \<open>The exit status\<close>

text \<open>
  C4, as the code has it. \<open>main\<close> returns 1 when there are URLs and the downloader
  cannot be set up, and 0 (or nothing, which \<open>sys.exit\<close> takes for 0) in every other
  case: once \<open>download_batch\<close> has returned the exit status is 0, whatever the
  counters say.
\<close>

theorem exit_status_ignores_failures:
  "exit_status (fst (main a w disk state_file init_raises))
     = (if a_urls a @ a_file_urls a \<noteq> [] \<and> init_raises then 1 else 0)"
  by (simp add: main_def exit_status_def Let_def split: prod.splits)

text \<open>
  C4 as stated fails: with one URL whose every request is refused, the job fails and the
  exit status is 0.
\<close>

theorem failed_job_exits_zero:
  "(case main plain_args quiet_world Map.empty None False of
      (exit_code, st) \<Rightarrow>
        exit_status exit_code = 0
        \<and> map_option failed st = Some 1 \<and> map_option successful st = Some 0)"
  by (simp add: main_def exit_status_def config_of_args_def plain_args_def
        batch_defs download_file_def download_loop.simps run_defs attempt_defs
        fetch_content_type_def user_agents_def cong: let_weak_cong prod.case_cong_weak)


subsection \<open>The growth of the cooldown\<close>

lemma check_domain_cooldown_entry:
  assumes p: "w_urlparse w u = Some p"
  shows "\<exists>st' t'. check_domain_cooldown cfg w st u = Some st'
           \<and> domain_cooldown st' (netloc p)
               = Some (t', case domain_cooldown st (netloc p) of
                             None \<Rightarrow> fresh_base cfg w st
                           | Some (t, c) \<Rightarrow> min (c * 1.2) 30)"
proof (cases "domain_cooldown st (netloc p)")
  case None
  with p show ?thesis
    by (simp add: check_domain_cooldown_def fresh_base_def random_uniform_def time_now_def Let_def)
next
  case (Some a)
  obtain t c where a: "a = (t, c)" by (cases a)
  from p Some a show ?thesis
    by (simp add: check_domain_cooldown_def random_uniform_def time_now_def sleep_def Let_def)
qed

lemma cooldowns_Suc:
  assumes p: "w_urlparse w u = Some p"
  shows "\<exists>st' t'. cooldowns cfg w u (Suc n) st
           = (case domain_cooldown st (netloc p) of
                None \<Rightarrow> fresh_base cfg w st | Some (t, c) \<Rightarrow> min (c * 1.2) 30)
             # cooldowns cfg w u n st'
         \<and> domain_cooldown st' (netloc p)
             = Some (t', case domain_cooldown st (netloc p) of
                None \<Rightarrow> fresh_base cfg w st | Some (t, c) \<Rightarrow> min (c * 1.2) 30)"
proof -
  from check_domain_cooldown_entry [OF p, of cfg st]
  obtain st' t' where "check_domain_cooldown cfg w st u = Some st'"
    and "domain_cooldown st' (netloc p)
               = Some (t', case domain_cooldown st (netloc p) of
                             None \<Rightarrow> fresh_base cfg w st
                           | Some (t, c) \<Rightarrow> min (c * 1.2) 30)"
    by blast
  with p show ?thesis by auto
qed

lemma cooldowns_length:
  assumes p: "w_urlparse w u = Some p"
  shows "length (cooldowns cfg w u n st) = n"
proof (induction n arbitrary: st)
  case 0
  show ?case by simp
next
  case (Suc n)
  from cooldowns_Suc [OF p, of cfg n st] Suc.IH show ?case
    by auto
qed

lemma cooldowns_chain:
  assumes p: "w_urlparse w u = Some p"
  shows "domain_cooldown st (netloc p) = Some (t, c)
     \<Longrightarrow> successively (\<lambda>a b. b = min (a * 1.2) 30) (c # cooldowns cfg w u n st)"
proof (induction n arbitrary: st t c)
  case 0
  show ?case by simp
next
  case (Suc n)
  from cooldowns_Suc [OF p, of cfg n st] Suc.prems
  obtain st' t' where e: "cooldowns cfg w u (Suc n) st = min (c * 1.2) 30 # cooldowns cfg w u n st'"
    and d: "domain_cooldown st' (netloc p) = Some (t', min (c * 1.2) 30)"
    by auto
  from Suc.IH [OF d] e show ?case by simp
qed

lemma chain_sorted:
  "successively (\<lambda>a b. b = min (a * 1.2) 30) (c # xs) \<Longrightarrow> 0 \<le> c \<Longrightarrow> c \<le> (30::real)
     \<Longrightarrow> sorted (c # xs) \<and> (\<forall>x \<in> set xs. x \<le> 30)"
proof (induction xs arbitrary: c)
  case Nil
  show ?case by simp
next
  case (Cons x xs)
  from Cons.prems(1) have x: "x = min (c * 1.2) 30"
    and s: "successively (\<lambda>a b. b = min (a * 1.2) 30) (x # xs)"
    unfolding successively.simps by blast+
  have b1: "0 \<le> x" using x Cons.prems(2) by simp
  have b2: "x \<le> 30" using x by simp
  have b3: "c \<le> x" using x Cons.prems(2,3) by simp
  from Cons.IH [OF s b1 b2] have so: "sorted (x # xs)" and bd: "\<forall>y \<in> set xs. y \<le> 30"
    by simp_all
  from so have "\<forall>y \<in> set xs. x \<le> y" by simp
  with b3 have "\<forall>y \<in> set xs. c \<le> y" by auto
  with so b3 have "sorted (c # x # xs)" by simp
  moreover from bd b2 have "\<forall>y \<in> set (x # xs). y \<le> 30" by simp
  ultimately show ?case by simp
qed

text \<open>
  C8, as the code has it. Let the URL have an origin. Then \<open>n\<close> passes of
  \<open>_check_domain_cooldown\<close> in a row record \<open>n\<close> cooldowns. When the origin has
  an entry with cooldown \<open>c\<close>, every recorded cooldown is the one before it (at
  first \<open>c\<close>) times 1.2, capped at 30: the base drawn in the pass is not used. When
  moreover \<open>c\<close> lies between 0 and 30, the sequence never decreases and stays at
  most 30. When the origin has no entry, the first cooldown is the base drawn in that
  pass, and every later one is again the one before it times 1.2, capped at 30.
\<close>

theorem cooldown_growth:
  assumes p: "w_urlparse w u = Some p"
  shows "length (cooldowns cfg w u n st) = n
         \<and> (\<forall>t c. domain_cooldown st (netloc p) = Some (t, c)
               \<longrightarrow> successively (\<lambda>a b. b = min (a * 1.2) 30) (c # cooldowns cfg w u n st)
                   \<and> (0 \<le> c \<and> c \<le> 30
                        \<longrightarrow> sorted (c # cooldowns cfg w u n st)
                            \<and> (\<forall>x \<in> set (cooldowns cfg w u n st). x \<le> 30)))
         \<and> (domain_cooldown st (netloc p) = None
               \<longrightarrow> successively (\<lambda>a b. b = min (a * 1.2) 30) (cooldowns cfg w u n st)
                   \<and> (0 < n \<longrightarrow> hd (cooldowns cfg w u n st) = fresh_base cfg w st))"
proof (intro conjI allI impI)
  show "length (cooldowns cfg w u n st) = n"
    by (rule cooldowns_length [OF p])
next
  fix t c
  assume "domain_cooldown st (netloc p) = Some (t, c)"
  then show "successively (\<lambda>a b. b = min (a * 1.2) 30) (c # cooldowns cfg w u n st)"
    by (rule cooldowns_chain [OF p])
next
  fix t c
  assume d: "domain_cooldown st (netloc p) = Some (t, c)" and r: "0 \<le> c \<and> c \<le> 30"
  from chain_sorted [OF cooldowns_chain [OF p d, of cfg n]] r
  show "sorted (c # cooldowns cfg w u n st)" by blast
next
  fix t c
  assume d: "domain_cooldown st (netloc p) = Some (t, c)" and r: "0 \<le> c \<and> c \<le> 30"
  from chain_sorted [OF cooldowns_chain [OF p d, of cfg n]] r
  show "\<forall>x \<in> set (cooldowns cfg w u n st). x \<le> 30" by blast
next
  assume none: "domain_cooldown st (netloc p) = None"
  show "successively (\<lambda>a b. b = min (a * 1.2) 30) (cooldowns cfg w u n st)"
  proof (cases n)
    case 0
    then show ?thesis by simp
  next
    case (Suc m)
    from cooldowns_Suc [OF p, of cfg m st] none
    obtain st' t' where e: "cooldowns cfg w u (Suc m) st = fresh_base cfg w st # cooldowns cfg w u m st'"
      and d: "domain_cooldown st' (netloc p) = Some (t', fresh_base cfg w st)"
      by auto
    from cooldowns_chain [OF p d, of cfg m] e Suc show ?thesis by simp
  qed
next
  assume none: "domain_cooldown st (netloc p) = None" and pos: "0 < n"
  then obtain m where n: "n = Suc m" by (cases n) simp_all
  from cooldowns_Suc [OF p, of cfg m st] none
  obtain st' where "cooldowns cfg w u (Suc m) st = fresh_base cfg w st # cooldowns cfg w u m st'"
    by auto
  with n show "hd (cooldowns cfg w u n st) = fresh_base cfg w st" by simp
qed

text \<open>
  C8 as stated fails. With an entry of a tenth of a second and a fresh base of 3
  seconds, the new cooldown is 0.12 seconds, not the maximum of 3 and 0.12. After the
  penalty for a 403 or 429 answer (40 seconds at the first retry) the next pass
  records 30: the sequence decreases. And with both delays configured as \<open>-1\<close> the
  first two passes record \<open>-1\<close> and \<open>-1.2\<close>.
\<close>

theorem cooldown_ignores_base:
  "cooldowns polite_config quiet_world ''http://a.example/f.bin'' (Suc 0) warm_state = [3 / 25]
   \<and> fresh_base polite_config quiet_world
       (sleep (1 / 10) (snd (time_now quiet_world warm_state))) = 3
   \<and> domain_cooldown (penalize quiet_world fresh_state ''http://a.example/f.bin'' 1) ''a.example''
       = Some (0, 40)
   \<and> cooldowns plain_config quiet_world ''http://a.example/f.bin'' (Suc 0)
       (penalize quiet_world fresh_state ''http://a.example/f.bin'' 1) = [30]
   \<and> cooldowns hasty_config quiet_world ''http://a.example/f.bin'' (Suc (Suc 0)) fresh_state
       = [- 1, - (6 / 5)]"
proof -
  note defs = check_domain_cooldown_def penalize_def fresh_base_def random_uniform_def
    time_now_def sleep_def Let_def quiet_world_def test_urlparse_def
  have a: "cooldowns polite_config quiet_world ''http://a.example/f.bin'' (Suc 0) warm_state
             = [3 / 25]"
    by (simp add: defs polite_config_def plain_config_def warm_state_def fresh_state_def
          init_state_def)
  have b: "fresh_base polite_config quiet_world
             (sleep (1 / 10) (snd (time_now quiet_world warm_state))) = 3"
    by (simp add: defs polite_config_def plain_config_def)
  have c: "domain_cooldown (penalize quiet_world fresh_state ''http://a.example/f.bin'' 1)
             ''a.example'' = Some (0, 40)"
    by (simp add: defs fresh_state_def init_state_def)
  have d: "cooldowns plain_config quiet_world ''http://a.example/f.bin'' (Suc 0)
             (penalize quiet_world fresh_state ''http://a.example/f.bin'' 1) = [30]"
    by (simp add: defs plain_config_def fresh_state_def init_state_def)
  have e: "cooldowns hasty_config quiet_world ''http://a.example/f.bin'' (Suc (Suc 0))
             fresh_state = [- 1, - (6 / 5)]"
    by (simp add: defs hasty_config_def plain_config_def fresh_state_def init_state_def)
  from a b c d e show ?thesis
    by blast
qed

theorem cooldown_growth_witness:
  "w_urlparse quiet_world ''http://a.example/f.bin''
     = Some \<lparr>scheme = ''http'', netloc = ''a.example'', url_path = ''/f.bin''\<rparr>
   \<and> domain_cooldown warm_state ''a.example'' = Some (0, 1 / 10)
   \<and> length (cooldowns plain_config quiet_world ''http://a.example/f.bin'' 3 warm_state) = 3
   \<and> sorted (1 / 10 # cooldowns plain_config quiet_world ''http://a.example/f.bin'' 3 warm_state)
   \<and> successively (\<lambda>a b. b = min (a * 1.2) 30)
       (1 / 10 # cooldowns plain_config quiet_world ''http://a.example/f.bin'' 3 warm_state)"
proof -
  define p where "p = \<lparr>scheme = ''http'', netloc = ''a.example'', url_path = ''/f.bin''\<rparr>"
  have p: "w_urlparse quiet_world ''http://a.example/f.bin'' = Some p"
    by (simp add: quiet_world_def test_urlparse_def p_def)
  have d: "domain_cooldown warm_state (netloc p) = Some (0, 1 / 10)"
    by (simp add: warm_state_def p_def)
  have r: "(0::real) \<le> 1 / 10 \<and> (1::real) / 10 \<le> 30"
    by simp
  note th = cooldown_growth [OF p, of plain_config 3 warm_state]
  from th have l: "length (cooldowns plain_config quiet_world ''http://a.example/f.bin'' 3 warm_state) = 3"
    by (rule conjunct1)
  from th have "\<forall>t c. domain_cooldown warm_state (netloc p) = Some (t, c)
               \<longrightarrow> successively (\<lambda>a b. b = min (a * 1.2) 30)
                     (c # cooldowns plain_config quiet_world ''http://a.example/f.bin'' 3 warm_state)
                   \<and> (0 \<le> c \<and> c \<le> 30
                        \<longrightarrow> sorted (c # cooldowns plain_config quiet_world ''http://a.example/f.bin'' 3 warm_state)
                            \<and> (\<forall>x \<in> set (cooldowns plain_config quiet_world ''http://a.example/f.bin'' 3 warm_state). x \<le> 30))"
    by (rule conjunct1 [OF conjunct2])
  from this [rule_format, OF d]
  have s: "successively (\<lambda>a b. b = min (a * 1.2) 30)
             (1 / 10 # cooldowns plain_config quiet_world ''http://a.example/f.bin'' 3 warm_state)"
    and "(0::real) \<le> 1 / 10 \<and> (1::real) / 10 \<le> 30
           \<longrightarrow> sorted (1 / 10 # cooldowns plain_config quiet_world ''http://a.example/f.bin'' 3 warm_state)
               \<and> (\<forall>x \<in> set (cooldowns plain_config quiet_world ''http://a.example/f.bin'' 3 warm_state). x \<le> 30)"
    by blast+
  with r have o: "sorted (1 / 10 # cooldowns plain_config quiet_world ''http://a.example/f.bin'' 3 warm_state)"
    by blast
  from p d l o s show ?thesis
    unfolding p_def by simp
qed


end
